theory Spec2Isabelle
  imports Complex_Main "HOL-Library.Log_Nat"
begin

section \<open>Geometry primitives\<close>

text \<open>
  The kernel of \<^verbatim>\<open>MoFI.H\<close> works on OpenFOAM's \<^verbatim>\<open>vector\<close>/\<^verbatim>\<open>point\<close>
  (three scalars), on \<^verbatim>\<open>Tetrahedron\<close> (a fixed list of four points) and on
  \<^verbatim>\<open>hPlane\<close> (a pair of a normal and an offset). Scalars are modelled as exact
  reals. The vector operators used by the source are \<^verbatim>\<open>+\<close>, \<^verbatim>\<open>-\<close>,
  \<^verbatim>\<open>scalar * vector\<close>, \<^verbatim>\<open>vector / scalar\<close>, \<^verbatim>\<open>&\<close> (inner product) and
  \<^verbatim>\<open>^\<close> (cross product).
\<close>

datatype vector = Vector (cmptX: real) (cmptY: real) (cmptZ: real)

instantiation vector :: ab_group_add
begin

definition zero_vector :: vector where
  "zero_vector = Vector 0 0 0"

definition plus_vector :: "vector \<Rightarrow> vector \<Rightarrow> vector" where
  "plus_vector a b = Vector (cmptX a + cmptX b) (cmptY a + cmptY b) (cmptZ a + cmptZ b)"

definition uminus_vector :: "vector \<Rightarrow> vector" where
  "uminus_vector a = Vector (- cmptX a) (- cmptY a) (- cmptZ a)"

definition minus_vector :: "vector \<Rightarrow> vector \<Rightarrow> vector" where
  "minus_vector a b = Vector (cmptX a - cmptX b) (cmptY a - cmptY b) (cmptZ a - cmptZ b)"

instance
  by standard
    (simp_all add: zero_vector_def plus_vector_def uminus_vector_def minus_vector_def)

end

text \<open>\<^verbatim>\<open>s * v\<close>\<close>
definition smul :: "real \<Rightarrow> vector \<Rightarrow> vector" where
  "smul s v = Vector (s * cmptX v) (s * cmptY v) (s * cmptZ v)"

text \<open>\<^verbatim>\<open>v / s\<close>\<close>
definition vdiv :: "vector \<Rightarrow> real \<Rightarrow> vector" where
  "vdiv v s = Vector (cmptX v / s) (cmptY v / s) (cmptZ v / s)"

text \<open>\<^verbatim>\<open>a & b\<close>\<close>
definition dot :: "vector \<Rightarrow> vector \<Rightarrow> real" where
  "dot a b = cmptX a * cmptX b + cmptY a * cmptY b + cmptZ a * cmptZ b"

text \<open>\<^verbatim>\<open>a ^ b\<close>\<close>
definition cross :: "vector \<Rightarrow> vector \<Rightarrow> vector" where
  "cross a b =
     Vector (cmptY a * cmptZ b - cmptZ a * cmptY b)
            (cmptZ a * cmptX b - cmptX a * cmptZ b)
            (cmptX a * cmptY b - cmptY a * cmptX b)"

text \<open>
  A fixed list of four elements with indexed read and write. The indices the source
  uses on a tetrahedron are loop counters below four or entries of the classification
  lists, which hold such counters; a read at a larger index does not occur.
\<close>

datatype 'a FixedList4 = FixedList4 'a 'a 'a 'a

fun fl_get :: "'a FixedList4 \<Rightarrow> nat \<Rightarrow> 'a" where
  "fl_get (FixedList4 a b c d) i =
     (if i = 0 then a else if i = 1 then b else if i = 2 then c else d)"

fun fl_set :: "'a FixedList4 \<Rightarrow> nat \<Rightarrow> 'a \<Rightarrow> 'a FixedList4" where
  "fl_set (FixedList4 a b c d) i v =
     (if i = 0 then FixedList4 v b c d
      else if i = 1 then FixedList4 a v c d
      else if i = 2 then FixedList4 a b v d
      else FixedList4 a b c v)"

type_synonym Tetrahedron = "vector FixedList4"

text \<open>\<^verbatim>\<open>hPlane\<close>: \<^verbatim>\<open>first()\<close> is the normal, \<^verbatim>\<open>second()\<close> the offset.\<close>

type_synonym hPlane = "vector \<times> real"


section \<open>getVolumeAndCentre\<close>

text \<open>
  The loop body of \<^verbatim>\<open>getVolumeAndCentre\<close>: the unsigned volume \<^verbatim>\<open>tV\<close> and the
  centroid \<^verbatim>\<open>tC\<close> of one tetrahedron.
\<close>

definition tetV :: "Tetrahedron \<Rightarrow> real" where
  "tetV t =
     \<bar>(1 / 6) *
        dot (cross (fl_get t 1 - fl_get t 0) (fl_get t 2 - fl_get t 0))
            (fl_get t 3 - fl_get t 0)\<bar>"

definition tetC :: "Tetrahedron \<Rightarrow> vector" where
  "tetC t = smul (1 / 4) (fl_get t 0 + fl_get t 1 + fl_get t 2 + fl_get t 3)"

text \<open>
  \<^verbatim>\<open>VSMALL\<close> is a constant of the OpenFOAM headers; it is a parameter here. The
  function returns the pair of the two output arguments \<^verbatim>\<open>(volume, centre)\<close>.
\<close>

definition getVolumeAndCentre :: "real \<Rightarrow> Tetrahedron list \<Rightarrow> real \<times> vector" where
  "getVolumeAndCentre VSMALL tets =
     (let (volume, centre) =
            fold (\<lambda>t (volume, centre).
                    let tV = tetV t; tC = tetC t
                    in (volume + tV, centre + smul tV tC))
                 tets (0, 0)
      in (volume, vdiv centre (volume + VSMALL)))"


section \<open>splitAndDecompose\<close>

text \<open>
  The classification loop. The fixed lists \<^verbatim>\<open>C\<close>, \<^verbatim>\<open>pos\<close>, \<^verbatim>\<open>neg\<close> and
  \<^verbatim>\<open>zero\<close> are filled from slot 0 upwards, together with their counters; each is a
  list here, the store \<^verbatim>\<open>pos[nPos++] = i\<close> is an append and the counter is the length.
\<close>

definition signedDistance :: "hPlane \<Rightarrow> vector \<Rightarrow> real" where
  "signedDistance clipPlane x = dot x (fst clipPlane) - snd clipPlane"

type_synonym sides = "real list \<times> nat list \<times> nat list \<times> nat list"

definition classifyStep :: "hPlane \<Rightarrow> Tetrahedron \<Rightarrow> nat \<Rightarrow> sides \<Rightarrow> sides" where
  "classifyStep clipPlane tetra i s =
     (case s of (C, pos, neg, zero) \<Rightarrow>
        let c = signedDistance clipPlane (fl_get tetra i) in
        if c > 0 then (C @ [c], pos @ [i], neg, zero)
        else if c < 0 then (C @ [c], pos, neg @ [i], zero)
        else (C @ [c], pos, neg, zero @ [i]))"

definition classify :: "hPlane \<Rightarrow> Tetrahedron \<Rightarrow> sides" where
  "classify clipPlane tetra = fold (classifyStep clipPlane tetra) [0..<4] ([], [], [], [])"

text \<open>
  The block that every splitting loop repeats, for a vertex \<open>a\<close> and a vertex \<open>b\<close>:
  \<^verbatim>\<open>invCDiff = 1.0 / (C[a] - C[b]); w0 = -C[b] * invCDiff; w1 = +C[a] * invCDiff;\<close>
  and the point \<^verbatim>\<open>(w0 * tetra[a]) + (w1 * tetra[b])\<close>.
\<close>

definition edgeWeights :: "real list \<Rightarrow> nat \<Rightarrow> nat \<Rightarrow> real \<times> real" where
  "edgeWeights C a b =
     (let invCDiff = 1 / (C ! a - C ! b);
          w0 = - (C ! b) * invCDiff;
          w1 = (C ! a) * invCDiff
      in (w0, w1))"

definition edgePoint :: "real list \<Rightarrow> Tetrahedron \<Rightarrow> nat \<Rightarrow> nat \<Rightarrow> vector" where
  "edgePoint C tetra a b =
     (case edgeWeights C a b of (w0, w1) \<Rightarrow>
        smul w0 (fl_get tetra a) + smul w1 (fl_get tetra b))"

text \<open>
  The loops. Each carries, next to the data it writes, the list \<open>divs\<close> of the
  divisions executed so far: the entry \<open>(a, b)\<close> stands for one evaluation of
  \<^verbatim>\<open>1.0 / (C[a] - C[b])\<close>. The scratch array \<^verbatim>\<open>intp\<close> is written slot after slot
  from 0 (the second loop of the \<^verbatim>\<open>++--\<close> case writes slots 2 and 3 after the first
  wrote 0 and 1), so it is a list and each store an append.
\<close>

text \<open>\<^verbatim>\<open>tetra[pos[i]] = (w0 * tetra[pos[i]]) + (w1 * tetra[neg[0]])\<close> for \<open>i < n\<close>\<close>
definition replaceLoop ::
  "real list \<Rightarrow> nat list \<Rightarrow> nat list \<Rightarrow> nat \<Rightarrow> Tetrahedron \<times> (nat \<times> nat) list
     \<Rightarrow> Tetrahedron \<times> (nat \<times> nat) list" where
  "replaceLoop C pos neg n =
     fold (\<lambda>i (tetra, divs).
             (fl_set tetra (pos ! i) (edgePoint C tetra (pos ! i) (neg ! 0)),
              divs @ [(pos ! i, neg ! 0)]))
          [0..<n]"

text \<open>\<^verbatim>\<open>intp[i + k] = (w0 * tetra[pos[i]]) + (w1 * tetra[neg[j]])\<close> for \<open>i < n\<close>,
  where \<open>k\<close> slots are already written\<close>
definition posLoop ::
  "real list \<Rightarrow> Tetrahedron \<Rightarrow> nat list \<Rightarrow> nat list \<Rightarrow> nat \<Rightarrow> nat
     \<Rightarrow> vector list \<times> (nat \<times> nat) list \<Rightarrow> vector list \<times> (nat \<times> nat) list" where
  "posLoop C tetra pos neg j n =
     fold (\<lambda>i (intp, divs).
             (intp @ [edgePoint C tetra (pos ! i) (neg ! j)],
              divs @ [(pos ! i, neg ! j)]))
          [0..<n]"

text \<open>\<^verbatim>\<open>intp[i] = (w0 * tetra[pos[0]]) + (w1 * tetra[neg[i]])\<close> for \<open>i < n\<close>\<close>
definition negLoop ::
  "real list \<Rightarrow> Tetrahedron \<Rightarrow> nat list \<Rightarrow> nat list \<Rightarrow> nat
     \<Rightarrow> vector list \<times> (nat \<times> nat) list \<Rightarrow> vector list \<times> (nat \<times> nat) list" where
  "negLoop C tetra pos neg n =
     fold (\<lambda>i (intp, divs).
             (intp @ [edgePoint C tetra (pos ! 0) (neg ! i)],
              divs @ [(pos ! 0, neg ! i)]))
          [0..<n]"

text \<open>
  The function itself: the buffer \<^verbatim>\<open>decompTets\<close> goes in and comes out, every
  \<^verbatim>\<open>append\<close> adds one element at its end, and the second component is the list of
  divisions executed.
\<close>

definition splitAndDecomposeLog ::
  "hPlane \<Rightarrow> Tetrahedron \<Rightarrow> Tetrahedron list \<Rightarrow> Tetrahedron list \<times> (nat \<times> nat) list" where
  "splitAndDecomposeLog clipPlane tet decompTets =
     (let tetra = tet in
      case classify clipPlane tetra of (C, pos, neg, zero) \<Rightarrow>
      let nPos = length pos; nNeg = length neg in
      if nNeg = 0 then (decompTets, [])
      else if nPos = 0 then (decompTets @ [tetra], [])
      else if nPos = 3 then
        (case replaceLoop C pos neg nPos (tetra, []) of (tetra, divs) \<Rightarrow>
           (decompTets @ [tetra], divs))
      else if nPos = 2 then
        (if nNeg = 2 then
           (case posLoop C tetra pos neg 0 nPos ([], []) of (intp, divs) \<Rightarrow>
            case posLoop C tetra pos neg 1 nNeg (intp, divs) of (intp, divs) \<Rightarrow>
            let tetra = fl_set tetra (pos ! 0) (intp ! 2);
                tetra = fl_set tetra (pos ! 1) (intp ! 1);
                decompTets = decompTets @ [tetra];
                tmpTetra = FixedList4 (fl_get tetra (neg ! 1)) (intp ! 3) (intp ! 2) (intp ! 1);
                decompTets = decompTets @ [tmpTetra];
                tmpTetra = FixedList4 (fl_get tetra (neg ! 0)) (intp ! 0) (intp ! 1) (intp ! 2);
                decompTets = decompTets @ [tmpTetra]
            in (decompTets, divs))
         else
           (case replaceLoop C pos neg nPos (tetra, []) of (tetra, divs) \<Rightarrow>
              (decompTets @ [tetra], divs)))
      else if nPos = 1 then
        (if nNeg = 3 then
           (case negLoop C tetra pos neg nNeg ([], []) of (intp, divs) \<Rightarrow>
            let tetra = fl_set tetra (pos ! 0) (intp ! 0);
                decompTets = decompTets @ [tetra];
                tmpTetra = FixedList4 (intp ! 0) (fl_get tetra (neg ! 1))
                                      (fl_get tetra (neg ! 2)) (intp ! 1);
                decompTets = decompTets @ [tmpTetra];
                tmpTetra = FixedList4 (fl_get tetra (neg ! 2)) (intp ! 1) (intp ! 2) (intp ! 0);
                decompTets = decompTets @ [tmpTetra]
            in (decompTets, divs))
         else if nNeg = 2 then
           (case negLoop C tetra pos neg nNeg ([], []) of (intp, divs) \<Rightarrow>
            let tetra = fl_set tetra (pos ! 0) (intp ! 0);
                decompTets = decompTets @ [tetra];
                tmpTetra = FixedList4 (intp ! 1) (fl_get tetra (zero ! 0))
                                      (fl_get tetra (neg ! 1)) (intp ! 0);
                decompTets = decompTets @ [tmpTetra]
            in (decompTets, divs))
         else
           (let divs = [(pos ! 0, neg ! 0)];
                tetra = fl_set tetra (pos ! 0) (edgePoint C tetra (pos ! 0) (neg ! 0));
                decompTets = decompTets @ [tetra]
            in (decompTets, divs)))
      else (decompTets, []))"

definition splitAndDecompose ::
  "hPlane \<Rightarrow> Tetrahedron \<Rightarrow> Tetrahedron list \<Rightarrow> Tetrahedron list" where
  "splitAndDecompose clipPlane tet decompTets =
     fst (splitAndDecomposeLog clipPlane tet decompTets)"


section \<open>decomposeCell\<close>

text \<open>
  The mesh view: \<^verbatim>\<open>mesh.faces()\<close> gives, for each face, its point labels in order,
  \<^verbatim>\<open>mesh.cells()\<close> gives, for each cell, its face labels. Labels are natural
  numbers. An indexed read outside a list, and the use of a tetrahedron slot that was
  never written, are undefined in the source; they are the two errors of the model.
\<close>

record polyMesh =
  faces :: "nat list list"
  cells :: "nat list list"

datatype error = IndexOutOfRange | UninitialisedVertex

fun bindE :: "error + 'a \<Rightarrow> ('a \<Rightarrow> error + 'b) \<Rightarrow> error + 'b" where
  "bindE (Inl e) f = Inl e"
| "bindE (Inr x) f = f x"

fun foldE :: "('a \<Rightarrow> 's \<Rightarrow> error + 's) \<Rightarrow> 'a list \<Rightarrow> 's \<Rightarrow> error + 's" where
  "foldE f [] s = Inr s"
| "foldE f (x # xs) s = bindE (f x s) (foldE f xs)"

fun mapE :: "('a \<Rightarrow> error + 'b) \<Rightarrow> 'a list \<Rightarrow> error + 'b list" where
  "mapE f [] = Inr []"
| "mapE f (x # xs) = bindE (f x) (\<lambda>y. bindE (mapE f xs) (\<lambda>ys. Inr (y # ys)))"

definition elemAt :: "'a list \<Rightarrow> nat \<Rightarrow> error + 'a" where
  "elemAt xs i = (if i < length xs then Inr (xs ! i) else Inl IndexOutOfRange)"

text \<open>\<^verbatim>\<open>points[f[k]] - xT\<close>\<close>
definition pointAt :: "vector list \<Rightarrow> nat list \<Rightarrow> nat \<Rightarrow> vector \<Rightarrow> error + vector" where
  "pointAt points f k xT =
     bindE (elemAt f k) (\<lambda>l. bindE (elemAt points l) (\<lambda>p. Inr (p - xT)))"

text \<open>
  Modelled from the spec: \<^verbatim>\<open>face::centre(points)\<close> belongs to the mesh
  collaborator and is not part of the source file; the specification gives it as the
  arithmetic mean of the face's vertices.
\<close>

definition centre :: "nat list \<Rightarrow> vector list \<Rightarrow> error + vector" where
  "centre f points =
     bindE (mapE (elemAt points) f) (\<lambda>ps. Inr (vdiv (sum_list ps) (real (length f))))"

text \<open>
  Modelled from the spec: \<^verbatim>\<open>face::nextLabel(i)\<close> belongs to the mesh collaborator
  and is not part of the source file; the specification gives it as
  \<^verbatim>\<open>faces[f][(i+1) mod size]\<close>.
\<close>

definition nextLabel :: "nat list \<Rightarrow> nat \<Rightarrow> error + nat" where
  "nextLabel f i = elemAt f ((i + 1) mod length f)"

text \<open>
  The local \<^verbatim>\<open>tmpTetra\<close> is declared without initial value and written slot by
  slot; a slot is \<open>None\<close> until it is written. \<^verbatim>\<open>tetDecomp.append(tmpTetra)\<close>
  copies the four slots to the end of the buffer.
\<close>

definition appendTmp ::
  "vector option FixedList4 \<Rightarrow> Tetrahedron list \<Rightarrow> error + Tetrahedron list" where
  "appendTmp tmpTetra tetDecomp =
     (case tmpTetra of
        FixedList4 (Some a) (Some b) (Some c) (Some d) \<Rightarrow>
          Inr (tetDecomp @ [FixedList4 a b c d])
      | _ \<Rightarrow> Inl UninitialisedVertex)"

text \<open>
  The loop over \<^verbatim>\<open>secondFace\<close> of the tetrahedral branch, with its \<^verbatim>\<open>break\<close>;
  \<open>l0\<close>, \<open>l1\<close>, \<open>l2\<close> are \<^verbatim>\<open>firstFace[0]\<close>, \<^verbatim>\<open>firstFace[1]\<close>,
  \<^verbatim>\<open>firstFace[2]\<close>.
\<close>

fun isolatedLoop ::
  "nat list \<Rightarrow> nat \<Rightarrow> nat \<Rightarrow> nat \<Rightarrow> vector list \<Rightarrow> vector \<Rightarrow> vector option FixedList4
     \<Rightarrow> error + vector option FixedList4" where
  "isolatedLoop [] l0 l1 l2 points xT tmpTetra = Inr tmpTetra"
| "isolatedLoop (l # rest) l0 l1 l2 points xT tmpTetra =
     (if l \<noteq> l0 \<and> l \<noteq> l1 \<and> l \<noteq> l2
      then bindE (elemAt points l) (\<lambda>p. Inr (fl_set tmpTetra 3 (Some (p - xT))))
      else isolatedLoop rest l0 l1 l2 points xT tmpTetra)"

text \<open>The body of the loop over the points of a face that is not a triangle.\<close>

definition edgeStep ::
  "vector list \<Rightarrow> vector \<Rightarrow> nat list \<Rightarrow> nat
     \<Rightarrow> vector option FixedList4 \<times> Tetrahedron list
     \<Rightarrow> error + (vector option FixedList4 \<times> Tetrahedron list)" where
  "edgeStep points xT checkFace pI s =
     (case s of (tmpTetra, tetDecomp) \<Rightarrow>
        bindE (pointAt points checkFace pI xT) (\<lambda>q0.
        bindE (nextLabel checkFace pI) (\<lambda>l1.
        bindE (elemAt points l1) (\<lambda>p1.
          let tmpTetra = fl_set tmpTetra 0 (Some q0);
              tmpTetra = fl_set tmpTetra 1 (Some (p1 - xT))
          in bindE (appendTmp tmpTetra tetDecomp) (\<lambda>tetDecomp.
             Inr (tmpTetra, tetDecomp))))))"

text \<open>The body of the loop over the faces of a cell that has not four faces.\<close>

definition faceStep ::
  "polyMesh \<Rightarrow> vector list \<Rightarrow> vector \<Rightarrow> nat
     \<Rightarrow> vector option FixedList4 \<times> Tetrahedron list
     \<Rightarrow> error + (vector option FixedList4 \<times> Tetrahedron list)" where
  "faceStep mesh points xT fI s =
     (case s of (tmpTetra, tetDecomp) \<Rightarrow>
        bindE (elemAt (faces mesh) fI) (\<lambda>checkFace.
          if length checkFace = 3 then
            bindE (pointAt points checkFace 0 xT) (\<lambda>q0.
            bindE (pointAt points checkFace 1 xT) (\<lambda>q1.
            bindE (pointAt points checkFace 2 xT) (\<lambda>q2.
              let tmpTetra = fl_set tmpTetra 0 (Some q0);
                  tmpTetra = fl_set tmpTetra 1 (Some q1);
                  tmpTetra = fl_set tmpTetra 2 (Some q2)
              in bindE (appendTmp tmpTetra tetDecomp) (\<lambda>tetDecomp.
                 Inr (tmpTetra, tetDecomp)))))
          else
            bindE (centre checkFace points) (\<lambda>c.
              let tmpTetra = fl_set tmpTetra 2 (Some (c - xT))
              in foldE (edgeStep points xT checkFace) [0..<length checkFace]
                   (tmpTetra, tetDecomp))))"

text \<open>
  The function: the buffer \<^verbatim>\<open>tetDecomp\<close> goes in, and the result is the buffer at
  return, or an error.
\<close>

definition decomposeCell ::
  "polyMesh \<Rightarrow> vector list \<Rightarrow> nat \<Rightarrow> vector \<Rightarrow> Tetrahedron list \<Rightarrow> vector
     \<Rightarrow> error + Tetrahedron list" where
  "decomposeCell mesh points cellIndex xC tetDecomp xT =
     (let tmpTetra = FixedList4 None None None None;
          tetDecomp = []
      in bindE (elemAt (cells mesh) cellIndex) (\<lambda>dCell.
           if length dCell = 4 then
             bindE (elemAt dCell 0) (\<lambda>f0.
             bindE (elemAt (faces mesh) f0) (\<lambda>firstFace.
             bindE (elemAt dCell 1) (\<lambda>f1.
             bindE (elemAt (faces mesh) f1) (\<lambda>secondFace.
             bindE (pointAt points firstFace 0 xT) (\<lambda>q0.
             bindE (pointAt points firstFace 1 xT) (\<lambda>q1.
             bindE (pointAt points firstFace 2 xT) (\<lambda>q2.
               let tmpTetra = fl_set tmpTetra 0 (Some q0);
                   tmpTetra = fl_set tmpTetra 1 (Some q1);
                   tmpTetra = fl_set tmpTetra 2 (Some q2)
               in bindE (isolatedLoop secondFace (firstFace ! 0) (firstFace ! 1)
                           (firstFace ! 2) points xT tmpTetra) (\<lambda>tmpTetra.
                  appendTmp tmpTetra tetDecomp))))))))
           else
             (let tmpTetra = fl_set tmpTetra 3 (Some (xC - xT))
              in bindE (foldE (faceStep mesh points xT) dCell (tmpTetra, tetDecomp))
                   (\<lambda>s. Inr (snd s)))))"


section \<open>Definitions that follow the specification\<close>

text \<open>
  The edge-intersection formula of the specification: for a vertex \<open>p\<close> with signed
  distance \<open>Cp\<close> and a vertex \<open>q\<close> with signed distance \<open>Cq\<close>, the point
  \<open>w0 * p + w1 * q\<close> with \<open>w0 = - Cq / (Cp - Cq)\<close> and \<open>w1 = Cp / (Cp - Cq)\<close>.
\<close>

definition intersectionPoint :: "real \<Rightarrow> real \<Rightarrow> vector \<Rightarrow> vector \<Rightarrow> vector" where
  "intersectionPoint Cp Cq p q = smul (- Cq / (Cp - Cq)) p + smul (Cp / (Cp - Cq)) q"

text \<open>
  The volume and the centroid of one tetrahedron in the specification's words:
  \<open>|((t1 - t0) \<times> (t2 - t0)) \<cdot> (t3 - t0)| / 6\<close> and the arithmetic mean of the four
  vertices.
\<close>

definition unsignedVolume :: "Tetrahedron \<Rightarrow> real" where
  "unsignedVolume t =
     \<bar>dot (cross (fl_get t 1 - fl_get t 0) (fl_get t 2 - fl_get t 0))
          (fl_get t 3 - fl_get t 0)\<bar> / 6"

definition vertexMean :: "Tetrahedron \<Rightarrow> vector" where
  "vertexMean t = vdiv (fl_get t 0 + fl_get t 1 + fl_get t 2 + fl_get t 3) 4"

text \<open>The signed six-fold volume of the tetrahedron with vertices \<open>a\<close>, \<open>b\<close>, \<open>c\<close>, \<open>d\<close>.\<close>

definition sv :: "vector \<Rightarrow> vector \<Rightarrow> vector \<Rightarrow> vector \<Rightarrow> real" where
  "sv a b c d = dot (cross (b - a) (c - a)) (d - a)"


text \<open>
  The decomposition of one face in the specification's words: a triangle gives the one
  tetrahedron \<open>(v0, v1, v2, xC)\<close>, any other face gives, for each of its edges
  \<open>(v_i, v_{i+1 mod k})\<close>, the tetrahedron \<open>(v_i, v_{i+1 mod k}, faceCentroid, xC)\<close>,
  where the face centroid is the arithmetic mean of the face's vertices; every vertex is
  translated by \<open>- xT\<close>.
\<close>

definition faceMean :: "vector list \<Rightarrow> nat list \<Rightarrow> vector" where
  "faceMean points f = vdiv (sum_list (map (\<lambda>l. points ! l) f)) (real (length f))"

definition fanTets :: "vector list \<Rightarrow> vector \<Rightarrow> vector \<Rightarrow> nat list \<Rightarrow> Tetrahedron list" where
  "fanTets points xC xT f =
     (if length f = 3 then
        [FixedList4 (points ! (f ! 0) - xT) (points ! (f ! 1) - xT) (points ! (f ! 2) - xT)
                    (xC - xT)]
      else
        map (\<lambda>i. FixedList4 (points ! (f ! i) - xT)
                              (points ! (f ! ((i + 1) mod length f)) - xT)
                              (faceMean points f - xT) (xC - xT))
            [0..<length f])"

text \<open>A tetrahedron with every vertex shifted by \<open>- xT\<close>.\<close>

fun fl_map :: "('a \<Rightarrow> 'b) \<Rightarrow> 'a FixedList4 \<Rightarrow> 'b FixedList4" where
  "fl_map g (FixedList4 a b c d) = FixedList4 (g a) (g b) (g c) (g d)"

definition translate :: "vector \<Rightarrow> Tetrahedron \<Rightarrow> Tetrahedron" where
  "translate xT = fl_map (\<lambda>v. v - xT)"

text \<open>
  The state of the loops of \<^verbatim>\<open>decomposeCell\<close>, the local \<^verbatim>\<open>tmpTetra\<close> and the
  buffer, with every vertex that is set shifted by \<open>- xT\<close>.
\<close>

definition shiftState ::
  "vector \<Rightarrow> vector option FixedList4 \<times> Tetrahedron list
     \<Rightarrow> vector option FixedList4 \<times> Tetrahedron list" where
  "shiftState xT s = (fl_map (map_option (\<lambda>v. v - xT)) (fst s), map (translate xT) (snd s))"

text \<open>
  The volume of the tetrahedra that \<^verbatim>\<open>splitAndDecompose\<close> appends for a plane and a
  tetrahedron, as \<^verbatim>\<open>getVolumeAndCentre\<close> sums it.
\<close>

definition clipVolume :: "hPlane \<Rightarrow> Tetrahedron \<Rightarrow> real" where
  "clipVolume pl t = sum_list (map tetV (splitAndDecompose pl t []))"


section \<open>The division block in double precision\<close>

text \<open>
  The source's \<^verbatim>\<open>scalar\<close> is an IEEE 754 binary64 number. The definitions above
  compute with exact reals; the ones below give the value that the four lines
  \<^verbatim>\<open>invCDiff = (1.0 / (C[a] - C[b])); w0 = -C[b] * invCDiff; w1 = +C[a] * invCDiff;\<close>
  produce in binary64, where every operation returns its exact result rounded to the
  nearest representable number, ties to the even significand.

  \<open>pow2 e\<close> is \<open>2\<close> to the power \<open>e\<close>, and \<open>expo x\<close> is the exponent of \<open>x\<close>: the
  integer \<open>e\<close> with \<open>2 ^ e \<le> |x| < 2 ^ (e + 1)\<close>, read off the number of binary digits of
  the integer part of \<open>|x|\<close> when \<open>|x| \<ge> 1\<close> and of \<open>1 / |x|\<close> otherwise.
\<close>

definition pow2 :: "int \<Rightarrow> real" where
  "pow2 e = (if 0 \<le> e then 2 ^ nat e else 1 / 2 ^ nat (- e))"

definition expo :: "real \<Rightarrow> int" where
  "expo x = (if 1 \<le> \<bar>x\<bar> then int (floorlog 2 (nat \<lfloor>\<bar>x\<bar>\<rfloor>)) - 1
             else - int (floorlog 2 (nat (\<lceil>1 / \<bar>x\<bar>\<rceil> - 1))))"

text \<open>The nearest integer, ties to the even one.\<close>

definition roundEven :: "real \<Rightarrow> int" where
  "roundEven q =
     (let f = \<lfloor>q\<rfloor> in
      if q - of_int f < 1 / 2 then f
      else if 1 / 2 < q - of_int f then f + 1
      else if even f then f else f + 1)"

text \<open>
  Rounding to binary64: a significand of 53 bits, so the unit in the last place is
  \<open>2 ^ (e - 52)\<close> for the exponent \<open>e\<close> of the number, and \<open>2 ^ (- 1074)\<close> below the
  normal range (exponent \<open>- 1022\<close>). The result is \<open>None\<close> when it is not a finite
  number: a magnitude that rounds to \<open>2 ^ 1024\<close> or more is an infinity.
\<close>

definition round64 :: "real \<Rightarrow> real option" where
  "round64 x =
     (if x = 0 then Some 0
      else let e = max (expo x) (- 1022);
               ulp = pow2 (e - 52);
               y = of_int (roundEven (x / ulp)) * ulp
           in if \<bar>y\<bar> < pow2 1024 then Some y else None)"

text \<open>
  The block in binary64, for \<open>Cp = C[a]\<close> and \<open>Cq = C[b]\<close>. A division by zero gives an
  infinity or a NaN, so \<open>None\<close>; the negation \<^verbatim>\<open>-C[b]\<close> is exact.
\<close>

definition edgeWeightsD :: "real \<Rightarrow> real \<Rightarrow> (real \<times> real) option" where
  "edgeWeightsD Cp Cq =
     Option.bind (round64 (Cp - Cq)) (\<lambda>diff.
     Option.bind (if diff = 0 then None else round64 (1 / diff)) (\<lambda>invCDiff.
     Option.bind (round64 (- Cq * invCDiff)) (\<lambda>w0.
     Option.bind (round64 (Cp * invCDiff)) (\<lambda>w1. Some (w0, w1)))))"


section \<open>Basic facts\<close>

lemmas vec_defs =
  dot_def cross_def smul_def vdiv_def plus_vector_def minus_vector_def uminus_vector_def
  zero_vector_def

lemma upt4: "[0..<4] = [0, 1, 2, 3]"
  by (simp add: upt_rec)

lemma fl_get_set_same [simp]: "fl_get (fl_set t i v) i = v"
  by (cases t) simp

lemma fl_get_set_other [simp]:
  "i \<noteq> j \<Longrightarrow> i < 4 \<Longrightarrow> j < 4 \<Longrightarrow> fl_get (fl_set t i v) j = fl_get t j"
  by (cases t) auto

lemma fl_eta: "FixedList4 (fl_get t 0) (fl_get t 1) (fl_get t 2) (fl_get t 3) = t"
  by (cases t) simp

lemma classify_eq:
  "classify pl t =
     (map (\<lambda>i. signedDistance pl (fl_get t i)) [0..<4],
      filter (\<lambda>i. signedDistance pl (fl_get t i) > 0) [0..<4],
      filter (\<lambda>i. signedDistance pl (fl_get t i) < 0) [0..<4],
      filter (\<lambda>i. signedDistance pl (fl_get t i) = 0) [0..<4])"
  unfolding classify_def upt4 by (simp add: classifyStep_def Let_def)

lemma filter3_distinct:
  assumes "\<And>x. \<not> (P x \<and> Q x)" "\<And>x. \<not> (P x \<and> R x)" "\<And>x. \<not> (Q x \<and> R x)" "distinct xs"
  shows "distinct (filter P xs @ filter Q xs @ filter R xs)"
  using assms by (auto)

lemma classify_facts:
  assumes "classify pl t = (C, pos, neg, zero)"
  shows "distinct (pos @ neg @ zero)"
    and "set (pos @ neg @ zero) = {0..<4}"
    and "\<And>i. i \<in> set pos \<Longrightarrow> 0 < C ! i"
    and "\<And>i. i \<in> set neg \<Longrightarrow> C ! i < 0"
    and "\<And>i. i \<in> set zero \<Longrightarrow> C ! i = 0"
    and "length C = 4"
    and "\<And>i. i < 4 \<Longrightarrow> C ! i = signedDistance pl (fl_get t i)"
proof -
  let ?sd = "\<lambda>i. signedDistance pl (fl_get t i)"
  from assms have C: "C = map ?sd [0..<4]"
    and pos: "pos = filter (\<lambda>i. ?sd i > 0) [0..<4]"
    and neg: "neg = filter (\<lambda>i. ?sd i < 0) [0..<4]"
    and zero: "zero = filter (\<lambda>i. ?sd i = 0) [0..<4]"
    by (simp_all add: classify_eq)
  show "distinct (pos @ neg @ zero)"
    unfolding pos neg zero by (rule filter3_distinct) auto
  show "set (pos @ neg @ zero) = {0..<4}"
    unfolding pos neg zero by auto
  show "length C = 4" by (simp add: C)
  show c: "\<And>i. i < 4 \<Longrightarrow> C ! i = ?sd i"
    unfolding C by (simp del: upt_Suc)
  show "\<And>i. i \<in> set pos \<Longrightarrow> 0 < C ! i" using c by (auto simp: pos)
  show "\<And>i. i \<in> set neg \<Longrightarrow> C ! i < 0" using c by (auto simp: neg)
  show "\<And>i. i \<in> set zero \<Longrightarrow> C ! i = 0" using c by (auto simp: zero)
qed

lemma classify_lengths:
  assumes "classify pl t = (C, pos, neg, zero)"
  shows "length pos + length neg + length zero = 4"
proof -
  have "length (pos @ neg @ zero) = card (set (pos @ neg @ zero))"
    using classify_facts(1)[OF assms] by (simp only: distinct_card)
  also have "\<dots> = 4" by (simp only: classify_facts(2)[OF assms]) simp
  finally show ?thesis by simp
qed

lemma upt3: "[0..<3] = [0, 1, 2]" by (simp add: upt_rec)
lemma upt2: "[0..<2] = [0, 1]" by (simp add: upt_rec)

lemma splitLog_noNeg:
  "classify pl t = (C, pos, [], zero) \<Longrightarrow> splitAndDecomposeLog pl t buf = (buf, [])"
  by (simp add: splitAndDecomposeLog_def)

lemma splitLog_noPos:
  "classify pl t = (C, [], n # neg, zero) \<Longrightarrow> splitAndDecomposeLog pl t buf = (buf @ [t], [])"
  by (simp add: splitAndDecomposeLog_def)

lemma splitLog_A:
  "classify pl t = (C, [p0, p1, p2], [n0], zero) \<Longrightarrow>
   splitAndDecomposeLog pl t buf =
     (let t1 = fl_set t p0 (edgePoint C t p0 n0);
          t2 = fl_set t1 p1 (edgePoint C t1 p1 n0);
          t3 = fl_set t2 p2 (edgePoint C t2 p2 n0)
      in (buf @ [t3], [(p0, n0), (p1, n0), (p2, n0)]))"
  by (simp add: splitAndDecomposeLog_def replaceLoop_def upt3 Let_def)

lemma splitLog_B:
  "classify pl t = (C, [p0, p1], [n0, n1], zero) \<Longrightarrow>
   splitAndDecomposeLog pl t buf =
     (let i0 = edgePoint C t p0 n0; i1 = edgePoint C t p1 n0;
          i2 = edgePoint C t p0 n1; i3 = edgePoint C t p1 n1;
          t2 = fl_set (fl_set t p0 i2) p1 i1
      in (buf @ [t2, FixedList4 (fl_get t2 n1) i3 i2 i1, FixedList4 (fl_get t2 n0) i0 i1 i2],
          [(p0, n0), (p1, n0), (p0, n1), (p1, n1)]))"
  by (simp add: splitAndDecomposeLog_def posLoop_def upt2 Let_def)

lemma splitLog_C:
  "classify pl t = (C, [p0, p1], [n0], zero) \<Longrightarrow>
   splitAndDecomposeLog pl t buf =
     (let t1 = fl_set t p0 (edgePoint C t p0 n0);
          t2 = fl_set t1 p1 (edgePoint C t1 p1 n0)
      in (buf @ [t2], [(p0, n0), (p1, n0)]))"
  by (simp add: splitAndDecomposeLog_def replaceLoop_def upt2 Let_def)

lemma splitLog_D:
  "classify pl t = (C, [p0], [n0, n1, n2], zero) \<Longrightarrow>
   splitAndDecomposeLog pl t buf =
     (let i0 = edgePoint C t p0 n0; i1 = edgePoint C t p0 n1; i2 = edgePoint C t p0 n2;
          t1 = fl_set t p0 i0
      in (buf @ [t1, FixedList4 i0 (fl_get t1 n1) (fl_get t1 n2) i1,
                 FixedList4 (fl_get t1 n2) i1 i2 i0],
          [(p0, n0), (p0, n1), (p0, n2)]))"
  by (simp add: splitAndDecomposeLog_def negLoop_def upt3 Let_def)

lemma splitLog_E:
  "classify pl t = (C, [p0], [n0, n1], zero) \<Longrightarrow>
   splitAndDecomposeLog pl t buf =
     (let i0 = edgePoint C t p0 n0; i1 = edgePoint C t p0 n1;
          t1 = fl_set t p0 i0
      in (buf @ [t1, FixedList4 i1 (fl_get t1 (zero ! 0)) (fl_get t1 n1) i0],
          [(p0, n0), (p0, n1)]))"
  by (simp add: splitAndDecomposeLog_def negLoop_def upt2 Let_def)

lemma splitLog_F:
  "classify pl t = (C, [p0], [n0], zero) \<Longrightarrow>
   splitAndDecomposeLog pl t buf =
     (buf @ [fl_set t p0 (edgePoint C t p0 n0)], [(p0, n0)])"
  by (simp add: splitAndDecomposeLog_def Let_def)


lemma edgePoint_eq:
  "edgePoint C t a b = intersectionPoint (C ! a) (C ! b) (fl_get t a) (fl_get t b)"
  by (simp add: edgePoint_def edgeWeights_def intersectionPoint_def Let_def)

lemma list_shape4:
  assumes "length xs \<le> 4"
  obtains "xs = []" | a where "xs = [a]" | a b where "xs = [a, b]"
    | a b c where "xs = [a, b, c]" | a b c d where "xs = [a, b, c, d]"
proof -
  from assms consider "length xs = 0" | "length xs = 1" | "length xs = 2" | "length xs = 3" | "length xs = 4" by arith
  then show ?thesis
  proof cases
    case 1 then show ?thesis using that(1) by simp
  next
    case 2 then show ?thesis using that(2) by (auto simp: length_Suc_conv)
  next
    case 3 then show ?thesis using that(3) by (auto simp: length_Suc_conv numeral_2_eq_2)
  next
    case 4 then show ?thesis using that(4) by (auto simp: length_Suc_conv numeral_3_eq_3)
  next
    case 5 then show ?thesis using that(5) by (auto simp: length_Suc_conv eval_nat_numeral)
  qed
qed

lemma split_cases [consumes 1, case_names noNeg noPos A B C D E F]:
  assumes cl: "classify pl t = (C, pos, neg, zero)"
  obtains
    (noNeg) "neg = []"
  | (noPos) "pos = []" "neg \<noteq> []"
  | (A) p0 p1 p2 n0 where "pos = [p0, p1, p2]" "neg = [n0]" "zero = []"
  | (B) p0 p1 n0 n1 where "pos = [p0, p1]" "neg = [n0, n1]" "zero = []"
  | (C) p0 p1 n0 z0 where "pos = [p0, p1]" "neg = [n0]" "zero = [z0]"
  | (D) p0 n0 n1 n2 where "pos = [p0]" "neg = [n0, n1, n2]" "zero = []"
  | (E) p0 n0 n1 z0 where "pos = [p0]" "neg = [n0, n1]" "zero = [z0]"
  | (F) p0 n0 z0 z1 where "pos = [p0]" "neg = [n0]" "zero = [z0, z1]"
proof -
  have len: "length pos + length neg + length zero = 4"
    by (rule classify_lengths[OF cl])
  then have "length pos \<le> 4" "length neg \<le> 4" "length zero \<le> 4" by simp_all
  then show ?thesis
    using len that
    by (elim list_shape4[of pos] list_shape4[of neg] list_shape4[of zero]) simp_all
qed

lemma splitLog_append:
  "splitAndDecomposeLog pl t buf =
     (buf @ fst (splitAndDecomposeLog pl t []), snd (splitAndDecomposeLog pl t []))"
proof -
  obtain C pos neg zero where cl: "classify pl t = (C, pos, neg, zero)"
    by (metis prod_cases4)
  from cl show ?thesis
  proof (cases rule: split_cases)
    case noNeg
    with cl show ?thesis by (simp add: splitLog_noNeg)
  next
    case noPos
    then obtain n ns where "neg = n # ns" by (cases neg) auto
    with cl noPos show ?thesis by (simp add: splitLog_noPos)
  next
    case A
    with cl show ?thesis by (simp add: splitLog_A Let_def)
  next
    case B
    with cl show ?thesis by (simp add: splitLog_B Let_def)
  next
    case C
    with cl show ?thesis by (simp add: splitLog_C Let_def)
  next
    case D
    with cl show ?thesis by (simp add: splitLog_D Let_def)
  next
    case E
    with cl show ?thesis by (simp add: splitLog_E Let_def)
  next
    case F
    with cl show ?thesis by (simp add: splitLog_F Let_def)
  qed
qed

lemma split_append: "splitAndDecompose pl t buf = buf @ splitAndDecompose pl t []"
  unfolding splitAndDecompose_def by (subst splitLog_append) simp

lemma decomposeCell_clears:
  "decomposeCell mesh points cellIndex xC tetDecomp xT = decomposeCell mesh points cellIndex xC [] xT"
  by (simp add: decomposeCell_def)


section \<open>Facts about volumes\<close>

lemma sv_swap12: "sv b a c d = - sv a b c d"
  by (cases a; cases b; cases c; cases d) (simp add: sv_def vec_defs algebra_simps)

lemma sv_swap23: "sv a c b d = - sv a b c d"
  by (cases a; cases b; cases c; cases d) (simp add: sv_def vec_defs algebra_simps)

lemma sv_swap34: "sv a b d c = - sv a b c d"
  by (cases a; cases b; cases c; cases d) (simp add: sv_def vec_defs algebra_simps)

lemma tetV_sv: "tetV (FixedList4 a b c d) = \<bar>sv a b c d\<bar> / 6"
  unfolding tetV_def sv_def by (simp add: abs_mult)

lemma tetV_unsigned: "tetV = unsignedVolume"
  by (rule ext) (simp add: tetV_def unsignedVolume_def abs_mult)

lemma tetC_mean: "tetC = vertexMean"
  by (rule ext) (simp add: tetC_def vertexMean_def smul_def vdiv_def)

lemma getVolumeAndCentre_fold:
  "fold (\<lambda>t (volume, centre). (volume + tetV t, centre + smul (tetV t) (tetC t))) tets (v, c)
   = (v + sum_list (map tetV tets), c + sum_list (map (\<lambda>t. smul (tetV t) (tetC t)) tets))"
  by (induction tets arbitrary: v c) (simp_all add: Let_def add.assoc)

lemma getVolumeAndCentre_sum:
  "getVolumeAndCentre eps tets =
     (sum_list (map tetV tets),
      vdiv (sum_list (map (\<lambda>t. smul (tetV t) (tetC t)) tets)) (sum_list (map tetV tets) + eps))"
  by (simp add: getVolumeAndCentre_def Let_def getVolumeAndCentre_fold)

lemma tetV_nonneg: "0 \<le> tetV t"
  by (simp add: tetV_def)

lemma sum_tetV_nonneg: "0 \<le> sum_list (map tetV tets)"
  by (induction tets) (simp_all add: tetV_nonneg)

lemma neg_empty_iff:
  "classify pl t = (C, pos, neg, zero) \<Longrightarrow>
   neg = [] \<longleftrightarrow> (\<forall>i<4. \<not> signedDistance pl (fl_get t i) < 0)"
  by (auto simp: classify_eq filter_empty_conv)

lemma pos_empty_iff:
  "classify pl t = (C, pos, neg, zero) \<Longrightarrow>
   pos = [] \<longleftrightarrow> (\<forall>i<4. \<not> 0 < signedDistance pl (fl_get t i))"
  by (auto simp: classify_eq filter_empty_conv)

lemma all_lt4: "(\<forall>i<4. P (i::nat)) \<longleftrightarrow> P 0 \<and> P 1 \<and> P 2 \<and> P 3"
proof -
  have "\<And>i::nat. i < 4 \<longleftrightarrow> i = 0 \<or> i = 1 \<or> i = 2 \<or> i = 3" by arith
  then show ?thesis by auto
qed

lemma ex_lt4: "(\<exists>i<4. P (i::nat)) \<longleftrightarrow> P 0 \<or> P 1 \<or> P 2 \<or> P 3"
proof -
  have "\<And>i::nat. i < 4 \<longleftrightarrow> i = 0 \<or> i = 1 \<or> i = 2 \<or> i = 3" by arith
  then show ?thesis by auto
qed


section \<open>Facts about the classification and the edge points\<close>

lemma edgeWeights_props:
  assumes "0 < C ! a" "C ! b < 0"
  shows "case edgeWeights C a b of (w0, w1) \<Rightarrow>
           w0 + w1 = 1 \<and> 0 < w0 \<and> w0 < 1 \<and> 0 < w1 \<and> w1 < 1"
proof -
  define D where "D = C ! a - C ! b"
  have d: "0 < D" using assms by (simp add: D_def)
  have w: "edgeWeights C a b = (- (C ! b) / D, C ! a / D)"
    by (simp add: edgeWeights_def Let_def D_def)
  have "- (C ! b) / D + C ! a / D = (- (C ! b) + C ! a) / D"
    by (simp only: add_divide_distrib)
  also have "\<dots> = 1" using d by (simp add: D_def)
  finally have s: "- (C ! b) / D + C ! a / D = 1" .
  have p0: "0 < - (C ! b) / D" using assms d by (simp add: divide_neg_pos)
  have p1: "0 < C ! a / D" using assms d by simp
  have l0: "- (C ! b) / D < 1" using p1 s by linarith
  have l1: "C ! a / D < 1" using p0 s by linarith
  show ?thesis unfolding w using s p0 p1 l0 l1 by simp
qed


lemma classify_pos:
  assumes "classify pl t = (C, pos, neg, zero)" "i \<in> set pos"
  shows "i < 4" "0 < signedDistance pl (fl_get t i)" "C ! i = signedDistance pl (fl_get t i)"
proof -
  have "i \<in> set (pos @ neg @ zero)" using assms(2) by simp
  then have "i \<in> {0..<4}" by (simp only: classify_facts(2)[OF assms(1)])
  then show i: "i < 4" by simp
  show c: "C ! i = signedDistance pl (fl_get t i)" by (rule classify_facts(7)[OF assms(1) i])
  show "0 < signedDistance pl (fl_get t i)" using classify_facts(3)[OF assms] c by simp
qed

lemma classify_neg:
  assumes "classify pl t = (C, pos, neg, zero)" "i \<in> set neg"
  shows "i < 4" "signedDistance pl (fl_get t i) < 0" "C ! i = signedDistance pl (fl_get t i)"
proof -
  have "i \<in> set (pos @ neg @ zero)" using assms(2) by simp
  then have "i \<in> {0..<4}" by (simp only: classify_facts(2)[OF assms(1)])
  then show i: "i < 4" by simp
  show c: "C ! i = signedDistance pl (fl_get t i)" by (rule classify_facts(7)[OF assms(1) i])
  show "signedDistance pl (fl_get t i) < 0" using classify_facts(4)[OF assms] c by simp
qed

lemma classify_zero:
  assumes "classify pl t = (C, pos, neg, zero)" "i \<in> set zero"
  shows "i < 4" "signedDistance pl (fl_get t i) = 0" "C ! i = signedDistance pl (fl_get t i)"
proof -
  have "i \<in> set (pos @ neg @ zero)" using assms(2) by simp
  then have "i \<in> {0..<4}" by (simp only: classify_facts(2)[OF assms(1)])
  then show i: "i < 4" by simp
  show c: "C ! i = signedDistance pl (fl_get t i)" by (rule classify_facts(7)[OF assms(1) i])
  show "signedDistance pl (fl_get t i) = 0" using classify_facts(5)[OF assms] c by simp
qed

lemma classify_cover:
  assumes "classify pl t = (C, pos, neg, zero)" "i < 4"
  shows "i \<in> set pos \<or> i \<in> set neg \<or> i \<in> set zero"
proof -
  have "i \<in> {0..<4}" using assms(2) by simp
  then have "i \<in> set (pos @ neg @ zero)" by (simp only: classify_facts(2)[OF assms(1)])
  then show ?thesis by auto
qed

lemma divs_subset:
  assumes cl: "classify pl t = (C, pos, neg, zero)"
  shows "set (snd (splitAndDecomposeLog pl t buf)) \<subseteq> set pos \<times> set neg"
  using cl
proof (cases rule: split_cases)
  case noNeg
  with cl show ?thesis by (simp add: splitLog_noNeg)
next
  case noPos
  then obtain n ns where "neg = n # ns" by (cases neg) auto
  with cl noPos show ?thesis by (simp add: splitLog_noPos)
next
  case A
  with cl show ?thesis by (simp add: splitLog_A Let_def)
next
  case B
  with cl show ?thesis by (simp add: splitLog_B Let_def)
next
  case C
  with cl show ?thesis by (simp add: splitLog_C Let_def)
next
  case D
  with cl show ?thesis by (simp add: splitLog_D Let_def)
next
  case E
  with cl show ?thesis by (simp add: splitLog_E Let_def)
next
  case F
  with cl show ?thesis by (simp add: splitLog_F Let_def)
qed


lemma fl_get_set:
  "i < 4 \<Longrightarrow> j < 4 \<Longrightarrow> fl_get (fl_set T i v) j = (if j = i then v else fl_get T j)"
  by (cases T) auto






section \<open>Facts about the decomposer\<close>

lemma bindE_case: "bindE r f = (case r of Inl e \<Rightarrow> Inl e | Inr x \<Rightarrow> f x)"
  by (cases r) simp_all

lemma pointAt_in:
  "k < length f \<Longrightarrow> f ! k < length points \<Longrightarrow> pointAt points f k xT = Inr (points ! (f ! k) - xT)"
  by (simp add: pointAt_def elemAt_def)


lemma elemAt_in [simp]: "i < length xs \<Longrightarrow> elemAt xs i = Inr (xs ! i)"
  by (simp add: elemAt_def)

lemma isolatedLoop_filter:
  "isolatedLoop f l0 l1 l2 points xT tmp =
     (case filter (\<lambda>l. l \<noteq> l0 \<and> l \<noteq> l1 \<and> l \<noteq> l2) f of
        [] \<Rightarrow> Inr tmp
      | l # _ \<Rightarrow> bindE (elemAt points l) (\<lambda>p. Inr (fl_set tmp 3 (Some (p - xT)))))"
  by (induction f) simp_all


lemma filter_unique_hd:
  assumes "v \<in> set f" "P v" "\<forall>u\<in>set f. P u \<longrightarrow> u = v"
  obtains xs where "filter P f = v # xs"
proof -
  have "v \<in> set (filter P f)" using assms(1,2) by simp
  then obtain y ys where y: "filter P f = y # ys" by (cases "filter P f") auto
  then have "y \<in> set (filter P f)" by simp
  then have "y \<in> set f" "P y" by simp_all
  with assms(3) have "y = v" by blast
  with y that show ?thesis by simp
qed

lemma isolatedLoop_unique:
  assumes "v \<in> set f" "v \<noteq> l0 \<and> v \<noteq> l1 \<and> v \<noteq> l2"
    and "\<forall>u\<in>set f. u \<noteq> l0 \<and> u \<noteq> l1 \<and> u \<noteq> l2 \<longrightarrow> u = v"
    and "v < length points"
  shows "isolatedLoop f l0 l1 l2 points xT tmp = Inr (fl_set tmp 3 (Some (points ! v - xT)))"
proof -
  obtain xs where "filter (\<lambda>l. l \<noteq> l0 \<and> l \<noteq> l1 \<and> l \<noteq> l2) f = v # xs"
    using filter_unique_hd[of v f "\<lambda>l. l \<noteq> l0 \<and> l \<noteq> l1 \<and> l \<noteq> l2"] assms(1-3) by blast
  then show ?thesis using assms(4) by (simp add: isolatedLoop_filter)
qed

lemma mapE_elemAt:
  "\<forall>l\<in>set f. l < length points \<Longrightarrow> mapE (elemAt points) f = Inr (map (\<lambda>l. points ! l) f)"
  by (induction f) (simp_all add: elemAt_def)

lemma centre_in:
  "\<forall>l\<in>set f. l < length points \<Longrightarrow> centre f points = Inr (faceMean points f)"
  by (simp add: centre_def faceMean_def mapE_elemAt)

lemma next_in_range: "i < length f \<Longrightarrow> (i + 1) mod length f < length f"
proof -
  assume "i < length f"
  then have "0 < length f" by linarith
  then show ?thesis by (rule mod_less_divisor)
qed

lemma nextLabel_in: "i < length f \<Longrightarrow> nextLabel f i = Inr (f ! ((i + 1) mod length f))"
  using next_in_range[of i f] by (simp only: nextLabel_def elemAt_def if_True)

lemma edgeStep_in:
  assumes "i < length f" "\<forall>l\<in>set f. l < length points"
  shows "edgeStep points xT f i (FixedList4 t0 t1 (Some c) (Some a), td)
     = Inr (FixedList4 (Some (points ! (f ! i) - xT))
                       (Some (points ! (f ! ((i + 1) mod length f)) - xT)) (Some c) (Some a),
            td @ [FixedList4 (points ! (f ! i) - xT)
                             (points ! (f ! ((i + 1) mod length f)) - xT) c a])"
proof -
  have n: "(i + 1) mod length f < length f" using assms(1) by (rule next_in_range)
  have p0: "f ! i < length points" using assms by simp
  have p1: "f ! ((i + 1) mod length f) < length points"
    using assms(2) nth_mem[OF n] by blast
  have pa: "pointAt points f i xT = Inr (points ! (f ! i) - xT)"
    by (rule pointAt_in[OF assms(1) p0])
  have e1: "elemAt points (f ! ((i + 1) mod length f)) = Inr (points ! (f ! ((i + 1) mod length f)))"
    using p1 by (simp add: elemAt_def)
  show ?thesis
    unfolding edgeStep_def Let_def
    by (simp only: prod.case pa nextLabel_in[OF assms(1)] e1 bindE.simps fl_set.simps)
       (simp add: appendTmp_def)
qed

lemma edgeLoop_in:
  assumes "\<forall>l\<in>set f. l < length points"
  shows "\<forall>i\<in>set xs. i < length f \<Longrightarrow>
         \<exists>s0 s1. foldE (edgeStep points xT f) xs (FixedList4 t0 t1 (Some c) (Some a), td)
           = Inr (FixedList4 s0 s1 (Some c) (Some a),
                  td @ map (\<lambda>i. FixedList4 (points ! (f ! i) - xT)
                                   (points ! (f ! ((i + 1) mod length f)) - xT) c a) xs)"
proof (induction xs arbitrary: t0 t1 td)
  case Nil
  then show ?case by simp
next
  case (Cons i xs)
  have i: "i < length f" using Cons.prems by simp
  have r: "\<forall>i\<in>set xs. i < length f" using Cons.prems by simp
  obtain s0 s1 where
    "foldE (edgeStep points xT f) xs
       (FixedList4 (Some (points ! (f ! i) - xT))
                   (Some (points ! (f ! ((i + 1) mod length f)) - xT)) (Some c) (Some a),
        td @ [FixedList4 (points ! (f ! i) - xT)
                         (points ! (f ! ((i + 1) mod length f)) - xT) c a])
     = Inr (FixedList4 s0 s1 (Some c) (Some a),
            (td @ [FixedList4 (points ! (f ! i) - xT)
                         (points ! (f ! ((i + 1) mod length f)) - xT) c a])
            @ map (\<lambda>i. FixedList4 (points ! (f ! i) - xT)
                                   (points ! (f ! ((i + 1) mod length f)) - xT) c a) xs)"
    using Cons.IH[OF r] by blast
  then have "foldE (edgeStep points xT f) (i # xs) (FixedList4 t0 t1 (Some c) (Some a), td)
     = Inr (FixedList4 s0 s1 (Some c) (Some a),
            td @ map (\<lambda>i. FixedList4 (points ! (f ! i) - xT)
                                   (points ! (f ! ((i + 1) mod length f)) - xT) c a) (i # xs))"
    by (simp only: foldE.simps edgeStep_in[OF i assms] bindE.simps) simp
  then show ?case by blast
qed

lemma faceStep_in:
  assumes "fI < length (faces mesh)" "\<forall>l\<in>set (faces mesh ! fI). l < length points"
  shows "\<exists>s0 s1 s2. faceStep mesh points xT fI (FixedList4 t0 t1 t2 (Some (xC - xT)), td)
           = Inr (FixedList4 s0 s1 s2 (Some (xC - xT)),
                  td @ fanTets points xC xT (faces mesh ! fI))"
proof -
  define f where "f = faces mesh ! fI"
  have ef: "elemAt (faces mesh) fI = Inr f" using assms(1) by (simp add: elemAt_def f_def)
  have rng: "\<forall>l\<in>set f. l < length points" using assms(2) by (simp add: f_def)
  show ?thesis
  proof (cases "length f = 3")
    case True
    then have l: "0 < length f" "1 < length f" "2 < length f" by linarith+
    have p: "f ! 0 < length points" "f ! 1 < length points" "f ! 2 < length points"
      using rng l by (simp_all only: nth_mem)
    have pa: "pointAt points f 0 xT = Inr (points ! (f ! 0) - xT)"
      "pointAt points f 1 xT = Inr (points ! (f ! 1) - xT)"
      "pointAt points f 2 xT = Inr (points ! (f ! 2) - xT)"
      using l p by (simp_all only: pointAt_in)
    have "faceStep mesh points xT fI (FixedList4 t0 t1 t2 (Some (xC - xT)), td)
        = Inr (FixedList4 (Some (points ! (f ! 0) - xT)) (Some (points ! (f ! 1) - xT))
                          (Some (points ! (f ! 2) - xT)) (Some (xC - xT)),
               td @ fanTets points xC xT f)"
      unfolding faceStep_def Let_def
      by (simp only: prod.case ef bindE.simps True if_True pa fl_set.simps)
         (simp add: appendTmp_def fanTets_def True)
    then show ?thesis unfolding f_def by blast
  next
    case False
    have all: "\<forall>i\<in>set [0..<length f]. i < length f" by simp
    obtain s0 s1 where
      "foldE (edgeStep points xT f) [0..<length f]
          (FixedList4 t0 t1 (Some (faceMean points f - xT)) (Some (xC - xT)), td)
       = Inr (FixedList4 s0 s1 (Some (faceMean points f - xT)) (Some (xC - xT)),
              td @ map (\<lambda>i. FixedList4 (points ! (f ! i) - xT)
                           (points ! (f ! ((i + 1) mod length f)) - xT)
                           (faceMean points f - xT) (xC - xT)) [0..<length f])"
      using edgeLoop_in[OF rng all] by blast
    then have "faceStep mesh points xT fI (FixedList4 t0 t1 t2 (Some (xC - xT)), td)
        = Inr (FixedList4 s0 s1 (Some (faceMean points f - xT)) (Some (xC - xT)),
               td @ fanTets points xC xT f)"
      unfolding faceStep_def Let_def
      by (simp only: prod.case ef bindE.simps False if_False centre_in[OF rng] fl_set.simps)
         (simp add: fanTets_def False)
    then show ?thesis unfolding f_def by blast
  qed
qed

lemma faceLoop_in:
  assumes "\<forall>fI\<in>set fs. fI < length (faces mesh) \<and> (\<forall>l\<in>set (faces mesh ! fI). l < length points)"
  shows "\<exists>s0 s1 s2. foldE (faceStep mesh points xT) fs (FixedList4 t0 t1 t2 (Some (xC - xT)), td)
           = Inr (FixedList4 s0 s1 s2 (Some (xC - xT)),
                  td @ concat (map (\<lambda>fI. fanTets points xC xT (faces mesh ! fI)) fs))"
  using assms
proof (induction fs arbitrary: t0 t1 t2 td)
  case Nil
  then show ?case by simp
next
  case (Cons fI fs)
  have a: "fI < length (faces mesh)" "\<forall>l\<in>set (faces mesh ! fI). l < length points"
    using Cons.prems by simp_all
  have r: "\<forall>fI\<in>set fs. fI < length (faces mesh) \<and> (\<forall>l\<in>set (faces mesh ! fI). l < length points)"
    using Cons.prems by simp
  obtain s0 s1 s2 where st:
    "faceStep mesh points xT fI (FixedList4 t0 t1 t2 (Some (xC - xT)), td)
       = Inr (FixedList4 s0 s1 s2 (Some (xC - xT)), td @ fanTets points xC xT (faces mesh ! fI))"
    using faceStep_in[OF a] by blast
  from Cons.IH[OF r, of s0 s1 s2 "td @ fanTets points xC xT (faces mesh ! fI)"]
  show ?case by (simp add: st)
qed

lemma vsub_zero [simp]: "(v::vector) - 0 = v"
  by simp

lemma pointAt_shift:
  "pointAt points f k xT = map_sum id (\<lambda>v. v - xT) (pointAt points f k 0)"
  by (simp add: pointAt_def bindE_case split: sum.splits)

lemma appendTmp_shift:
  "appendTmp (fl_map (map_option (\<lambda>v. v - xT)) tmp) (map (translate xT) td)
     = map_sum id (map (translate xT)) (appendTmp tmp td)"
proof -
  obtain a b c d where t: "tmp = FixedList4 a b c d" by (cases tmp)
  show ?thesis
    unfolding t
    by (cases a; cases b; cases c; cases d) (simp_all add: appendTmp_def translate_def)
qed

lemma fl_set_shift:
  "fl_set (fl_map (map_option (\<lambda>v. v - xT)) tmp) i (Some (q - xT))
     = fl_map (map_option (\<lambda>v. v - xT)) (fl_set tmp i (Some q))"
  by (cases tmp) simp

lemma isolatedLoop_shift:
  "isolatedLoop f l0 l1 l2 points xT (fl_map (map_option (\<lambda>v. v - xT)) tmp)
     = map_sum id (fl_map (map_option (\<lambda>v. v - xT))) (isolatedLoop f l0 l1 l2 points 0 tmp)"
proof (induction f)
  case Nil
  show ?case by simp
next
  case (Cons l rest)
  show ?case
  proof (cases "l \<noteq> l0 \<and> l \<noteq> l1 \<and> l \<noteq> l2")
    case True
    then show ?thesis
      by (cases "elemAt points l") (simp_all add: fl_set_shift)
  next
    case False
    then show ?thesis using Cons.IH by auto
  qed
qed

lemma foldE_shift:
  assumes "\<And>x s. g' x (phi s) = map_sum id phi (g x s)"
  shows "foldE g' xs (phi s) = map_sum id phi (foldE g xs s)"
proof (induction xs arbitrary: s)
  case Nil
  show ?case by simp
next
  case (Cons x xs)
  show ?case
    by (cases "g x s") (simp_all add: assms Cons.IH)
qed

lemma edgeStep_shift:
  "edgeStep points xT f i (shiftState xT s) = map_sum id (shiftState xT) (edgeStep points 0 f i s)"
proof -
  obtain tmp td where s: "s = (tmp, td)" by (cases s)
  show ?thesis
  proof (cases "pointAt points f i 0")
    case (Inl e)
    then show ?thesis
      by (simp add: s edgeStep_def shiftState_def pointAt_shift[of points f i xT])
  next
    case q0: (Inr q0)
    show ?thesis
    proof (cases "nextLabel f i")
      case (Inl e)
      then show ?thesis
        by (simp add: s edgeStep_def shiftState_def pointAt_shift[of points f i xT] q0)
    next
      case l1: (Inr l1)
      show ?thesis
      proof (cases "elemAt points l1")
        case (Inl e)
        then show ?thesis
          by (simp add: s edgeStep_def shiftState_def pointAt_shift[of points f i xT] q0 l1)
      next
        case p1: (Inr p1)
        show ?thesis
          by (cases "appendTmp (fl_set (fl_set tmp 0 (Some q0)) 1 (Some p1)) td")
             (simp_all add: s edgeStep_def shiftState_def pointAt_shift[of points f i xT] q0 l1 p1
                Let_def fl_set_shift appendTmp_shift)
      qed
    qed
  qed
qed


lemma faceStep_shift:
  "faceStep mesh points xT fI (shiftState xT s)
     = map_sum id (shiftState xT) (faceStep mesh points 0 fI s)"
proof -
  obtain tmp td where s: "s = (tmp, td)" by (cases s)
  show ?thesis
  proof (cases "elemAt (faces mesh) fI")
    case (Inl e)
    then show ?thesis by (simp add: s faceStep_def shiftState_def)
  next
    case f: (Inr f)
    show ?thesis
    proof (cases "length f = 3")
      case True
      show ?thesis
      proof (cases "pointAt points f 0 0")
        case (Inl e)
        then show ?thesis
          by (simp add: s faceStep_def shiftState_def f True pointAt_shift[of points f _ xT])
      next
        case q0: (Inr q0)
        show ?thesis
        proof (cases "pointAt points f (Suc 0) 0")
          case (Inl e)
          then show ?thesis
            by (simp add: s faceStep_def shiftState_def f True pointAt_shift[of points f _ xT] q0)
        next
          case q1: (Inr q1)
          show ?thesis
          proof (cases "pointAt points f 2 0")
            case (Inl e)
            then show ?thesis
              by (simp add: s faceStep_def shiftState_def f True
                  pointAt_shift[of points f _ xT] q0 q1)
          next
            case q2: (Inr q2)
            show ?thesis
              by (cases "appendTmp (fl_set (fl_set (fl_set tmp 0 (Some q0)) 1 (Some q1)) 2 (Some q2)) td")
                 (simp_all add: s faceStep_def shiftState_def f True
                    pointAt_shift[of points f _ xT] q0 q1 q2 Let_def fl_set_shift appendTmp_shift)
          qed
        qed
      qed
    next
      case False
      show ?thesis
      proof (cases "centre f points")
        case (Inl e)
        then show ?thesis by (simp add: s faceStep_def shiftState_def f False)
      next
        case c: (Inr c)
        have st: "(fl_set (fl_map (map_option (\<lambda>v. v - xT)) tmp) 2 (Some (c - xT)),
                   map (translate xT) td)
                  = shiftState xT (fl_set tmp 2 (Some c), td)"
          by (simp add: shiftState_def fl_set_shift)
        have "foldE (edgeStep points xT f) [0..<length f] (shiftState xT (fl_set tmp 2 (Some c), td))
            = map_sum id (shiftState xT)
                (foldE (edgeStep points 0 f) [0..<length f] (fl_set tmp 2 (Some c), td))"
          by (rule foldE_shift) (rule edgeStep_shift)
        then show ?thesis
          unfolding s faceStep_def Let_def
          by (simp only: prod.case f bindE.simps if_not_P[OF False] c shiftState_def
              fst_conv snd_conv vsub_zero fl_set_shift)
      qed
    qed
  qed
qed

lemma tetBranch_shift:
  "bindE (pointAt points firstFace 0 xT) (\<lambda>q0.
   bindE (pointAt points firstFace 1 xT) (\<lambda>q1.
   bindE (pointAt points firstFace 2 xT) (\<lambda>q2.
   bindE (isolatedLoop secondFace l0 l1 l2 points xT
            (fl_set (fl_set (fl_set (FixedList4 None None None None) 0 (Some q0)) 1 (Some q1))
                    2 (Some q2)))
         (\<lambda>tmpTetra. appendTmp tmpTetra []))))
   = map_sum id (map (translate xT))
      (bindE (pointAt points firstFace 0 0) (\<lambda>q0.
       bindE (pointAt points firstFace 1 0) (\<lambda>q1.
       bindE (pointAt points firstFace 2 0) (\<lambda>q2.
       bindE (isolatedLoop secondFace l0 l1 l2 points 0
                (fl_set (fl_set (fl_set (FixedList4 None None None None) 0 (Some q0)) 1 (Some q1))
                        2 (Some q2)))
             (\<lambda>tmpTetra. appendTmp tmpTetra [])))))"
proof (cases "pointAt points firstFace 0 0")
  case (Inl e)
  then show ?thesis by (simp add: pointAt_shift[of points firstFace _ xT])
next
  case q0: (Inr q0)
  show ?thesis
  proof (cases "pointAt points firstFace (Suc 0) 0")
    case (Inl e)
    then show ?thesis by (simp add: pointAt_shift[of points firstFace _ xT] q0)
  next
    case q1: (Inr q1)
    show ?thesis
    proof (cases "pointAt points firstFace 2 0")
      case (Inl e)
      then show ?thesis by (simp add: pointAt_shift[of points firstFace _ xT] q0 q1)
    next
      case q2: (Inr q2)
      define tmp where "tmp = FixedList4 None None (None::vector option) (Some q2)"
      have iso: "isolatedLoop secondFace l0 l1 l2 points xT
                   (FixedList4 (Some (q0 - xT)) (Some (q1 - xT)) (Some (q2 - xT)) None)
          = map_sum id (fl_map (map_option (\<lambda>v. v - xT)))
              (isolatedLoop secondFace l0 l1 l2 points 0
                 (FixedList4 (Some q0) (Some q1) (Some q2) None))"
        using isolatedLoop_shift[of secondFace l0 l1 l2 points xT
            "FixedList4 (Some q0) (Some q1) (Some q2) None"] by simp
      show ?thesis
      proof (cases "isolatedLoop secondFace l0 l1 l2 points 0
                 (FixedList4 (Some q0) (Some q1) (Some q2) None)")
        case (Inl e)
        then show ?thesis
          by (simp add: pointAt_shift[of points firstFace _ xT] q0 q1 q2 iso)
      next
        case (Inr tmp')
        then show ?thesis
          using appendTmp_shift[of xT tmp' "[]"]
          by (simp add: pointAt_shift[of points firstFace _ xT] q0 q1 q2 iso)
      qed
    qed
  qed
qed

lemma decomposeCell_shift:
  "decomposeCell mesh points cellIndex xC tetDecomp xT
     = map_sum id (map (translate xT)) (decomposeCell mesh points cellIndex xC tetDecomp 0)"
proof (cases "elemAt (cells mesh) cellIndex")
  case (Inl e)
  then show ?thesis by (simp add: decomposeCell_def)
next
  case dCell: (Inr dCell)
  have init: "FixedList4 None None None None
      = fl_map (map_option (\<lambda>v. v - xT)) (FixedList4 None None None None)"
    by simp
  show ?thesis
  proof (cases "length dCell = 4")
    case False
    have st: "(fl_set (FixedList4 None None None None) 3 (Some (xC - xT)), [])
        = shiftState xT (fl_set (FixedList4 None None None None) 3 (Some xC), [])"
      by (simp add: shiftState_def)
    have "foldE (faceStep mesh points xT) dCell
            (shiftState xT (fl_set (FixedList4 None None None None) 3 (Some xC), []))
        = map_sum id (shiftState xT)
            (foldE (faceStep mesh points 0) dCell
               (fl_set (FixedList4 None None None None) 3 (Some xC), []))"
      by (rule foldE_shift) (rule faceStep_shift)
    then show ?thesis
      unfolding decomposeCell_def Let_def
      by (cases "foldE (faceStep mesh points 0) dCell
                   (fl_set (FixedList4 None None None None) 3 (Some xC), [])")
         (simp_all only: dCell bindE.simps if_not_P[OF False] st vsub_zero, simp_all add: shiftState_def)
  next
    case True
    show ?thesis
      unfolding decomposeCell_def Let_def
      apply (simp only: dCell bindE.simps if_P[OF True])
      apply (simp only: tetBranch_shift[where xT = xT])
      apply (simp add: bindE_case split: sum.splits)
      done
  qed
qed


lemma tetV_translate: "tetV (translate xT T) = tetV T"
proof -
  obtain a b c d where T: "T = FixedList4 a b c d" by (cases T)
  have "(b - xT) - (a - xT) = b - a" "(c - xT) - (a - xT) = c - a" "(d - xT) - (a - xT) = d - a"
    by simp_all
  then show ?thesis by (simp add: T translate_def tetV_def)
qed

lemma tetC_translate: "tetC (translate xT T) = tetC T - xT"
proof -
  obtain a b c d where T: "T = FixedList4 a b c d" by (cases T)
  show ?thesis by (simp add: T translate_def tetC_def vec_defs algebra_simps)
qed

lemma smul_diff: "smul s (a - b) = smul s a - smul s b"
  by (simp add: vec_defs algebra_simps)

lemma smul_add_left: "smul (s + r) a = smul s a + smul r a"
  by (simp add: vec_defs algebra_simps)

lemma moment_translate:
  "sum_list (map (\<lambda>t. smul (tetV t) (tetC t)) (map (translate xT) tets))
     = sum_list (map (\<lambda>t. smul (tetV t) (tetC t)) tets) - smul (sum_list (map tetV tets)) xT"
proof (induction tets)
  case Nil
  show ?case by (simp add: vec_defs)
next
  case (Cons t ts)
  show ?case
    by (simp add: Cons.IH tetV_translate tetC_translate smul_diff smul_add_left del: map_map)
qed

lemma volume_translate:
  "sum_list (map tetV (map (translate xT) tets)) = sum_list (map tetV tets)"
  by (induction tets) (simp_all add: tetV_translate)

lemma vdiv_diff_smul: "vdiv (S - smul V x) D = vdiv S D - smul (V / D) x"
  by (simp add: vec_defs diff_divide_distrib)


section \<open>Facts about signed volumes\<close>

lemma sv_affine1:
  assumes "u + w = 1"
  shows "sv (smul u p + smul w q) b c d = u * sv p b c d + w * sv q b c d"
proof -
  have w: "w = 1 - u" using assms by simp
  show ?thesis
    unfolding w by (cases p; cases q; cases b; cases c; cases d)
      (simp add: sv_def vec_defs algebra_simps)
qed

lemma sv_affine2:
  assumes "u + w = 1"
  shows "sv a (smul u p + smul w q) c d = u * sv a p c d + w * sv a q c d"
proof -
  have w: "w = 1 - u" using assms by simp
  show ?thesis
    unfolding w by (cases p; cases q; cases a; cases c; cases d)
      (simp add: sv_def vec_defs algebra_simps)
qed

lemma sv_affine3:
  assumes "u + w = 1"
  shows "sv a b (smul u p + smul w q) d = u * sv a b p d + w * sv a b q d"
proof -
  have w: "w = 1 - u" using assms by simp
  show ?thesis
    unfolding w by (cases p; cases q; cases a; cases b; cases d)
      (simp add: sv_def vec_defs algebra_simps)
qed

lemma sv_affine4:
  assumes "u + w = 1"
  shows "sv a b c (smul u p + smul w q) = u * sv a b c p + w * sv a b c q"
proof -
  have w: "w = 1 - u" using assms by simp
  show ?thesis
    unfolding w by (cases p; cases q; cases a; cases b; cases c)
      (simp add: sv_def vec_defs algebra_simps)
qed

lemmas sv_affine = sv_affine1 sv_affine2 sv_affine3 sv_affine4

lemma sv_deg:
  "sv a a c d = 0" "sv a b a d = 0" "sv a b c a = 0"
  "sv a b b d = 0" "sv a b c b = 0" "sv a b c c = 0"
  by (cases a; cases b; cases c; cases d; simp add: sv_def vec_defs algebra_simps)+

lemma vol_AD:
  assumes s: "a0 + b0 = 1" "a1 + b1 = 1" "a2 + b2 = 1"
    and nn: "0 \<le> a0" "0 \<le> b0" "0 \<le> a1" "0 \<le> b1" "0 \<le> a2" "0 \<le> b2"
  shows "\<bar>sv (smul a0 P0 + smul b0 N) (smul a1 P1 + smul b1 N) (smul a2 P2 + smul b2 N) N\<bar>
       + (\<bar>sv P0 P1 P2 (smul a0 P0 + smul b0 N)\<bar>
          + \<bar>sv (smul a0 P0 + smul b0 N) P1 P2 (smul a1 P1 + smul b1 N)\<bar>
          + \<bar>sv P2 (smul a1 P1 + smul b1 N) (smul a2 P2 + smul b2 N) (smul a0 P0 + smul b0 N)\<bar>)
       = \<bar>sv P0 P1 P2 N\<bar>"
proof -
  define S where "S = sv P0 P1 P2 N"
  have e1: "sv (smul a0 P0 + smul b0 N) (smul a1 P1 + smul b1 N) (smul a2 P2 + smul b2 N) N
      = a0 * a1 * a2 * S"
    by (simp add: sv_affine s sv_deg S_def)
  have e2: "sv P0 P1 P2 (smul a0 P0 + smul b0 N) = b0 * S"
    by (simp add: sv_affine s sv_deg S_def)
  have e3: "sv (smul a0 P0 + smul b0 N) P1 P2 (smul a1 P1 + smul b1 N) = a0 * b1 * S"
    by (simp add: sv_affine s sv_deg S_def)
  have e4: "sv P2 (smul a1 P1 + smul b1 N) (smul a2 P2 + smul b2 N) (smul a0 P0 + smul b0 N)
      = a0 * a1 * b2 * sv P2 P1 N P0"
    by (simp add: sv_affine s sv_deg)
  have p4: "\<bar>sv P2 P1 N P0\<bar> = \<bar>S\<bar>"
    unfolding S_def
    by (cases P0; cases P1; cases P2; cases N)
       (simp add: sv_def vec_defs algebra_simps abs_eq_iff)
  have b: "b0 = 1 - a0" "b1 = 1 - a1" "b2 = 1 - a2" using s by simp_all
  have "\<bar>a0 * a1 * a2 * S\<bar> + (\<bar>b0 * S\<bar> + \<bar>a0 * b1 * S\<bar> + \<bar>a0 * a1 * b2 * sv P2 P1 N P0\<bar>)
      = (a0 * a1 * a2 + b0 + a0 * b1 + a0 * a1 * b2) * \<bar>S\<bar>"
    using nn by (simp add: abs_mult p4 algebra_simps)
  also have "\<dots> = \<bar>S\<bar>"
    unfolding b by (simp add: algebra_simps)
  finally show ?thesis unfolding e1 e2 e3 e4 S_def .
qed

lemma vol_BB:
  assumes s: "a0 + b0 = 1" "a1 + b1 = 1" "a2 + b2 = 1" "a3 + b3 = 1"
    and nn: "0 \<le> a0" "0 \<le> b0" "0 \<le> a1" "0 \<le> b1" "0 \<le> a2" "0 \<le> b2" "0 \<le> a3" "0 \<le> b3"
  shows "(\<bar>sv (smul a2 P0 + smul b2 N1) (smul a1 P1 + smul b1 N0) N0 N1\<bar>
          + \<bar>sv N1 (smul a3 P1 + smul b3 N1) (smul a2 P0 + smul b2 N1) (smul a1 P1 + smul b1 N0)\<bar>
          + \<bar>sv N0 (smul a0 P0 + smul b0 N0) (smul a1 P1 + smul b1 N0) (smul a2 P0 + smul b2 N1)\<bar>)
       + (\<bar>sv P0 P1 (smul a1 P1 + smul b1 N0) (smul a2 P0 + smul b2 N1)\<bar>
          + \<bar>sv P1 (smul a3 P1 + smul b3 N1) (smul a1 P1 + smul b1 N0) (smul a2 P0 + smul b2 N1)\<bar>
          + \<bar>sv P0 (smul a0 P0 + smul b0 N0) (smul a2 P0 + smul b2 N1) (smul a1 P1 + smul b1 N0)\<bar>)
       = \<bar>sv P0 P1 N0 N1\<bar>"
proof -
  define S where "S = sv P0 P1 N0 N1"
  have e1: "sv (smul a2 P0 + smul b2 N1) (smul a1 P1 + smul b1 N0) N0 N1 = a1 * a2 * S"
    by (simp add: sv_affine s sv_deg S_def)
  have e2: "sv N1 (smul a3 P1 + smul b3 N1) (smul a2 P0 + smul b2 N1) (smul a1 P1 + smul b1 N0)
      = a2 * a3 * b1 * sv N1 P1 P0 N0"
    by (simp add: sv_affine s sv_deg)
  have e3: "sv N0 (smul a0 P0 + smul b0 N0) (smul a1 P1 + smul b1 N0) (smul a2 P0 + smul b2 N1)
      = a0 * a1 * b2 * sv N0 P0 P1 N1"
    by (simp add: sv_affine s sv_deg)
  have e4: "sv P0 P1 (smul a1 P1 + smul b1 N0) (smul a2 P0 + smul b2 N1) = b1 * b2 * S"
    by (simp add: sv_affine s sv_deg S_def)
  have e5: "sv P1 (smul a3 P1 + smul b3 N1) (smul a1 P1 + smul b1 N0) (smul a2 P0 + smul b2 N1)
      = a2 * b1 * b3 * sv P1 N1 N0 P0"
    by (simp add: sv_affine s sv_deg)
  have e6: "sv P0 (smul a0 P0 + smul b0 N0) (smul a2 P0 + smul b2 N1) (smul a1 P1 + smul b1 N0)
      = a1 * b0 * b2 * sv P0 N0 N1 P1"
    by (simp add: sv_affine s sv_deg)
  have p: "\<bar>sv N1 P1 P0 N0\<bar> = \<bar>S\<bar>" "\<bar>sv N0 P0 P1 N1\<bar> = \<bar>S\<bar>"
    "\<bar>sv P1 N1 N0 P0\<bar> = \<bar>S\<bar>" "\<bar>sv P0 N0 N1 P1\<bar> = \<bar>S\<bar>"
    unfolding S_def
    by (cases P0; cases P1; cases N0; cases N1;
        simp add: sv_def vec_defs algebra_simps abs_eq_iff)+
  have b: "b0 = 1 - a0" "b1 = 1 - a1" "b2 = 1 - a2" "b3 = 1 - a3" using s by simp_all
  have "(\<bar>a1 * a2 * S\<bar> + \<bar>a2 * a3 * b1 * sv N1 P1 P0 N0\<bar> + \<bar>a0 * a1 * b2 * sv N0 P0 P1 N1\<bar>)
       + (\<bar>b1 * b2 * S\<bar> + \<bar>a2 * b1 * b3 * sv P1 N1 N0 P0\<bar> + \<bar>a1 * b0 * b2 * sv P0 N0 N1 P1\<bar>)
      = (a1 * a2 + a2 * a3 * b1 + a0 * a1 * b2 + b1 * b2 + a2 * b1 * b3 + a1 * b0 * b2) * \<bar>S\<bar>"
    using nn by (simp add: abs_mult p algebra_simps)
  also have "\<dots> = \<bar>S\<bar>"
    unfolding b by (simp add: algebra_simps)
  finally show ?thesis unfolding e1 e2 e3 e4 e5 e6 S_def .
qed

lemma vol_CE:
  assumes s: "a0 + b0 = 1" "a1 + b1 = 1"
    and nn: "0 \<le> a0" "0 \<le> b0" "0 \<le> a1" "0 \<le> b1"
  shows "\<bar>sv (smul a0 P0 + smul b0 N) (smul a1 P1 + smul b1 N) N Z\<bar>
       + (\<bar>sv P0 P1 (smul a0 P0 + smul b0 N) Z\<bar>
          + \<bar>sv (smul a1 P1 + smul b1 N) Z P1 (smul a0 P0 + smul b0 N)\<bar>)
       = \<bar>sv P0 P1 N Z\<bar>"
proof -
  define S where "S = sv P0 P1 N Z"
  have e1: "sv (smul a0 P0 + smul b0 N) (smul a1 P1 + smul b1 N) N Z = a0 * a1 * S"
    by (simp add: sv_affine s sv_deg S_def)
  have e2: "sv P0 P1 (smul a0 P0 + smul b0 N) Z = b0 * S"
    by (simp add: sv_affine s sv_deg S_def)
  have e3: "sv (smul a1 P1 + smul b1 N) Z P1 (smul a0 P0 + smul b0 N) = a0 * b1 * sv N Z P1 P0"
    by (simp add: sv_affine s sv_deg)
  have p: "\<bar>sv N Z P1 P0\<bar> = \<bar>S\<bar>"
    unfolding S_def
    by (cases P0; cases P1; cases N; cases Z)
       (simp add: sv_def vec_defs algebra_simps abs_eq_iff)
  have b: "b0 = 1 - a0" "b1 = 1 - a1" using s by simp_all
  have "\<bar>a0 * a1 * S\<bar> + (\<bar>b0 * S\<bar> + \<bar>a0 * b1 * sv N Z P1 P0\<bar>)
      = (a0 * a1 + b0 + a0 * b1) * \<bar>S\<bar>"
    using nn by (simp add: abs_mult p algebra_simps)
  also have "\<dots> = \<bar>S\<bar>"
    unfolding b by (simp add: algebra_simps)
  finally show ?thesis unfolding e1 e2 e3 S_def .
qed

lemma vol_FF:
  assumes s: "a0 + b0 = 1" and nn: "0 \<le> a0" "0 \<le> b0"
  shows "\<bar>sv (smul a0 P0 + smul b0 N) N Z0 Z1\<bar> + \<bar>sv P0 (smul a0 P0 + smul b0 N) Z0 Z1\<bar>
       = \<bar>sv P0 N Z0 Z1\<bar>"
proof -
  define S where "S = sv P0 N Z0 Z1"
  have e1: "sv (smul a0 P0 + smul b0 N) N Z0 Z1 = a0 * S"
    by (simp add: sv_affine s sv_deg S_def)
  have e2: "sv P0 (smul a0 P0 + smul b0 N) Z0 Z1 = b0 * S"
    by (simp add: sv_affine s sv_deg S_def)
  have "\<bar>a0 * S\<bar> + \<bar>b0 * S\<bar> = (a0 + b0) * \<bar>S\<bar>"
    using nn by (simp add: abs_mult algebra_simps)
  also have "\<dots> = \<bar>S\<bar>" by (simp add: s)
  finally show ?thesis unfolding e1 e2 S_def .
qed

lemma sv_coplanar:
  assumes "dot a n = d" "dot b n = d" "dot c n = d" "dot e n = d" "n \<noteq> 0"
  shows "sv a b c e = 0"
proof -
  define u where "u = b - a"
  define v where "v = c - a"
  define w where "w = e - a"
  have un: "dot u n = 0" and vn: "dot v n = 0" and wn: "dot w n = 0"
    using assms(1-4) by (simp_all add: u_def v_def w_def vec_defs algebra_simps)
  have id: "smul (dot (cross u v) w) n
      = smul (dot u n) (cross v w) + smul (dot v n) (cross w u) + smul (dot w n) (cross u v)"
    by (cases u; cases v; cases w; cases n) (simp add: vec_defs algebra_simps)
  have "smul (dot (cross u v) w) n = 0"
    unfolding id un vn wn by (simp add: vec_defs)
  then have "dot (cross u v) w * cmptX n = 0" "dot (cross u v) w * cmptY n = 0"
    "dot (cross u v) w * cmptZ n = 0"
    by (simp_all add: smul_def zero_vector_def)
  moreover have "cmptX n \<noteq> 0 \<or> cmptY n \<noteq> 0 \<or> cmptZ n \<noteq> 0"
    using assms(5) by (cases n) (simp add: zero_vector_def)
  ultimately have "dot (cross u v) w = 0" by auto
  then show ?thesis by (simp add: sv_def u_def v_def w_def)
qed

lemma abs_sv_idx:
  assumes "distinct [i, j, k, l]" "i < 4" "j < 4" "k < 4" "l < 4"
  shows "\<bar>sv (fl_get (FixedList4 a b c d) i) (fl_get (FixedList4 a b c d) j)
            (fl_get (FixedList4 a b c d) k) (fl_get (FixedList4 a b c d) l)\<bar>
         = \<bar>sv a b c d\<bar>"
proof -
  have lt4: "\<And>n::nat. n < 4 \<Longrightarrow> n = 0 \<or> n = 1 \<or> n = 2 \<or> n = 3" by arith
  show ?thesis
    using assms(1) lt4[OF assms(2)] lt4[OF assms(3)] lt4[OF assms(4)] lt4[OF assms(5)]
    by (elim disjE; simp; (simp add: sv_def vec_defs algebra_simps abs_eq_iff)?)
qed

lemma tetV_idx:
  assumes "distinct [i, j, k, l]" "i < 4" "j < 4" "k < 4" "l < 4"
  shows "tetV T = \<bar>sv (fl_get T i) (fl_get T j) (fl_get T k) (fl_get T l)\<bar> / 6"
proof -
  obtain a b c d where T: "T = FixedList4 a b c d" by (cases T)
  show ?thesis
    unfolding T tetV_sv by (simp only: abs_sv_idx[OF assms])
qed

lemma classify_opposite:
  assumes "classify (n, d) t = (C, pos, neg, zero)"
  shows "classify (- n, - d) t = (map uminus C, neg, pos, zero)"
proof -
  have sd: "signedDistance (- n, - d) x = - signedDistance (n, d) x" for x
    by (simp add: signedDistance_def vec_defs algebra_simps)
  show ?thesis
    using assms unfolding classify_eq sd
    by (auto simp del: upt_Suc simp: comp_def)
qed

lemma ip_weights:
  assumes "0 < cp" "cq < 0"
  obtains a b where "a + b = 1" "0 \<le> a" "0 \<le> b"
    "\<And>p q. intersectionPoint cp cq p q = smul a p + smul b q"
    "\<And>p q. intersectionPoint (- cq) (- cp) q p = smul a p + smul b q"
proof -
  define D where "D = cp - cq"
  have d: "0 < D" using assms by (simp add: D_def)
  have "- cq / D + cp / D = (- cq + cp) / D" by (simp only: add_divide_distrib)
  also have "\<dots> = 1" using d by (simp add: D_def)
  finally have s: "- cq / D + cp / D = 1" .
  have ncq: "0 \<le> - cq" using assms(2) by simp
  have a: "0 \<le> - cq / D" using ncq d by (rule divide_nonneg_pos)
  have b: "0 \<le> cp / D" using assms(1) d by simp
  have i1: "intersectionPoint cp cq p q = smul (- cq / D) p + smul (cp / D) q" for p q
    by (simp add: intersectionPoint_def D_def)
  have D': "- cq - - cp = D" by (simp add: D_def)
  have i2: "intersectionPoint (- cq) (- cp) q p = smul (- cq / D) p + smul (cp / D) q" for p q
    unfolding intersectionPoint_def D' by (simp add: add.commute)
  from s a b i1 i2 show ?thesis by (rule that)
qed

lemma uminus_nth4: "length C = 4 \<Longrightarrow> i < 4 \<Longrightarrow> map uminus C ! i = - (C ! i :: real)"
  by simp

lemma conservation_A:
  assumes cl: "classify (n, d) t = (C, [p0, p1, p2], [n0], zero)"
  shows "clipVolume (n, d) t + clipVolume (- n, - d) t = tetV t"
proof -
  note cl' = classify_opposite[OF cl]
  have lt: "p0 < 4" "p1 < 4" "p2 < 4" "n0 < 4"
    using classify_pos(1)[OF cl] classify_neg(1)[OF cl] by simp_all
  have dd: "distinct [p0, p1, p2, n0]" using classify_facts(1)[OF cl] by simp
  have lenC: "length C = 4" by (rule classify_facts(6)[OF cl])
  have sg: "0 < C ! p0" "0 < C ! p1" "0 < C ! p2" "C ! n0 < 0"
    using classify_facts(3)[OF cl] classify_facts(4)[OF cl] by simp_all
  define P0 where "P0 = fl_get t p0"
  define P1 where "P1 = fl_get t p1"
  define P2 where "P2 = fl_get t p2"
  define N where "N = fl_get t n0"
  obtain a0 b0 where w0: "a0 + b0 = 1" "0 \<le> a0" "0 \<le> b0"
    "\<And>p q. intersectionPoint (C ! p0) (C ! n0) p q = smul a0 p + smul b0 q"
    "\<And>p q. intersectionPoint (- (C ! n0)) (- (C ! p0)) q p = smul a0 p + smul b0 q"
    using ip_weights[OF sg(1) sg(4)] by metis
  obtain a1 b1 where w1: "a1 + b1 = 1" "0 \<le> a1" "0 \<le> b1"
    "\<And>p q. intersectionPoint (C ! p1) (C ! n0) p q = smul a1 p + smul b1 q"
    "\<And>p q. intersectionPoint (- (C ! n0)) (- (C ! p1)) q p = smul a1 p + smul b1 q"
    using ip_weights[OF sg(2) sg(4)] by metis
  obtain a2 b2 where w2: "a2 + b2 = 1" "0 \<le> a2" "0 \<le> b2"
    "\<And>p q. intersectionPoint (C ! p2) (C ! n0) p q = smul a2 p + smul b2 q"
    "\<And>p q. intersectionPoint (- (C ! n0)) (- (C ! p2)) q p = smul a2 p + smul b2 q"
    using ip_weights[OF sg(3) sg(4)] by metis
  define I0 where "I0 = smul a0 P0 + smul b0 N"
  define I1 where "I1 = smul a1 P1 + smul b1 N"
  define I2 where "I2 = smul a2 P2 + smul b2 N"
  have outH: "splitAndDecompose (n, d) t [] = [fl_set (fl_set (fl_set t p0 I0) p1 I1) p2 I2]"
    using dd lt
    by (simp add: splitAndDecompose_def splitLog_A[OF cl] Let_def edgePoint_eq w0(4) w1(4) w2(4)
        I0_def I1_def I2_def P0_def P1_def P2_def N_def)
  have outH': "splitAndDecompose (- n, - d) t []
      = [fl_set t n0 I0, FixedList4 I0 P1 P2 I1, FixedList4 P2 I1 I2 I0]"
    using dd lt
    by (simp add: splitAndDecompose_def splitLog_D[OF cl'] Let_def edgePoint_eq
        uminus_nth4[OF lenC] w0(5) w1(5) w2(5)
        I0_def I1_def I2_def P0_def P1_def P2_def N_def)
  have v0: "tetV t = \<bar>sv P0 P1 P2 N\<bar> / 6"
    using tetV_idx[OF dd lt, of t] by (simp add: P0_def P1_def P2_def N_def)
  have v1: "tetV (fl_set (fl_set (fl_set t p0 I0) p1 I1) p2 I2) = \<bar>sv I0 I1 I2 N\<bar> / 6"
    using tetV_idx[OF dd lt, of "fl_set (fl_set (fl_set t p0 I0) p1 I1) p2 I2"] dd lt
    by (simp add: fl_get_set N_def)
  have v2: "tetV (fl_set t n0 I0) = \<bar>sv P0 P1 P2 I0\<bar> / 6"
    using tetV_idx[OF dd lt, of "fl_set t n0 I0"] dd lt
    by (simp add: fl_get_set P0_def P1_def P2_def)
  have "\<bar>sv I0 I1 I2 N\<bar> + (\<bar>sv P0 P1 P2 I0\<bar> + \<bar>sv I0 P1 P2 I1\<bar> + \<bar>sv P2 I1 I2 I0\<bar>)
      = \<bar>sv P0 P1 P2 N\<bar>"
    unfolding I0_def I1_def I2_def
    by (rule vol_AD[OF w0(1) w1(1) w2(1) w0(2,3) w1(2,3) w2(2,3)])
  then show ?thesis
    by (simp add: clipVolume_def outH outH' v0 v1 v2 tetV_sv add_divide_distrib[symmetric])
qed


lemma conservation_B:
  assumes cl: "classify (n, d) t = (C, [p0, p1], [n0, n1], zero)"
  shows "clipVolume (n, d) t + clipVolume (- n, - d) t = tetV t"
proof -
  note cl' = classify_opposite[OF cl]
  have lt: "p0 < 4" "p1 < 4" "n0 < 4" "n1 < 4"
    using classify_pos(1)[OF cl] classify_neg(1)[OF cl] by simp_all
  have dd: "distinct [p0, p1, n0, n1]" using classify_facts(1)[OF cl] by simp
  have lenC: "length C = 4" by (rule classify_facts(6)[OF cl])
  have sg: "0 < C ! p0" "0 < C ! p1" "C ! n0 < 0" "C ! n1 < 0"
    using classify_facts(3)[OF cl] classify_facts(4)[OF cl] by simp_all
  define P0 where "P0 = fl_get t p0"
  define P1 where "P1 = fl_get t p1"
  define N0 where "N0 = fl_get t n0"
  define N1 where "N1 = fl_get t n1"
  obtain a0 b0 where w0: "a0 + b0 = 1" "0 \<le> a0" "0 \<le> b0"
    "\<And>p q. intersectionPoint (C ! p0) (C ! n0) p q = smul a0 p + smul b0 q"
    "\<And>p q. intersectionPoint (- (C ! n0)) (- (C ! p0)) q p = smul a0 p + smul b0 q"
    using ip_weights[OF sg(1) sg(3)] by metis
  obtain a1 b1 where w1: "a1 + b1 = 1" "0 \<le> a1" "0 \<le> b1"
    "\<And>p q. intersectionPoint (C ! p1) (C ! n0) p q = smul a1 p + smul b1 q"
    "\<And>p q. intersectionPoint (- (C ! n0)) (- (C ! p1)) q p = smul a1 p + smul b1 q"
    using ip_weights[OF sg(2) sg(3)] by metis
  obtain a2 b2 where w2: "a2 + b2 = 1" "0 \<le> a2" "0 \<le> b2"
    "\<And>p q. intersectionPoint (C ! p0) (C ! n1) p q = smul a2 p + smul b2 q"
    "\<And>p q. intersectionPoint (- (C ! n1)) (- (C ! p0)) q p = smul a2 p + smul b2 q"
    using ip_weights[OF sg(1) sg(4)] by metis
  obtain a3 b3 where w3: "a3 + b3 = 1" "0 \<le> a3" "0 \<le> b3"
    "\<And>p q. intersectionPoint (C ! p1) (C ! n1) p q = smul a3 p + smul b3 q"
    "\<And>p q. intersectionPoint (- (C ! n1)) (- (C ! p1)) q p = smul a3 p + smul b3 q"
    using ip_weights[OF sg(2) sg(4)] by metis
  define I0 where "I0 = smul a0 P0 + smul b0 N0"
  define I1 where "I1 = smul a1 P1 + smul b1 N0"
  define I2 where "I2 = smul a2 P0 + smul b2 N1"
  define I3 where "I3 = smul a3 P1 + smul b3 N1"
  have outH: "splitAndDecompose (n, d) t []
      = [fl_set (fl_set t p0 I2) p1 I1, FixedList4 N1 I3 I2 I1, FixedList4 N0 I0 I1 I2]"
    using dd lt
    by (simp add: splitAndDecompose_def splitLog_B[OF cl] Let_def edgePoint_eq
        w0(4) w1(4) w2(4) w3(4)
        I0_def I1_def I2_def I3_def P0_def P1_def N0_def N1_def)
  have outH': "splitAndDecompose (- n, - d) t []
      = [fl_set (fl_set t n0 I1) n1 I2, FixedList4 P1 I3 I1 I2, FixedList4 P0 I0 I2 I1]"
    using dd lt
    by (simp add: splitAndDecompose_def splitLog_B[OF cl'] Let_def edgePoint_eq
        uminus_nth4[OF lenC] w0(5) w1(5) w2(5) w3(5)
        I0_def I1_def I2_def I3_def P0_def P1_def N0_def N1_def)
  have v0: "tetV t = \<bar>sv P0 P1 N0 N1\<bar> / 6"
    using tetV_idx[OF dd lt, of t] by (simp add: P0_def P1_def N0_def N1_def)
  have v1: "tetV (fl_set (fl_set t p0 I2) p1 I1) = \<bar>sv I2 I1 N0 N1\<bar> / 6"
    using tetV_idx[OF dd lt, of "fl_set (fl_set t p0 I2) p1 I1"] dd lt
    by (simp add: fl_get_set N0_def N1_def)
  have v2: "tetV (fl_set (fl_set t n0 I1) n1 I2) = \<bar>sv P0 P1 I1 I2\<bar> / 6"
    using tetV_idx[OF dd lt, of "fl_set (fl_set t n0 I1) n1 I2"] dd lt
    by (simp add: fl_get_set P0_def P1_def)
  have "(\<bar>sv I2 I1 N0 N1\<bar> + \<bar>sv N1 I3 I2 I1\<bar> + \<bar>sv N0 I0 I1 I2\<bar>)
       + (\<bar>sv P0 P1 I1 I2\<bar> + \<bar>sv P1 I3 I1 I2\<bar> + \<bar>sv P0 I0 I2 I1\<bar>)
      = \<bar>sv P0 P1 N0 N1\<bar>"
    unfolding I0_def I1_def I2_def I3_def
    by (rule vol_BB[OF w0(1) w1(1) w2(1) w3(1) w0(2,3) w1(2,3) w2(2,3) w3(2,3)])
  then show ?thesis
    by (simp add: clipVolume_def outH outH' v0 v1 v2 tetV_sv add_divide_distrib[symmetric])
qed

lemma conservation_C:
  assumes cl: "classify (n, d) t = (C, [p0, p1], [n0], zero)"
  shows "clipVolume (n, d) t + clipVolume (- n, - d) t = tetV t"
proof -
  note cl' = classify_opposite[OF cl]
  have "length [p0, p1] + length [n0] + length zero = 4" by (rule classify_lengths[OF cl])
  then obtain z0 where zero: "zero = [z0]" by (cases zero) auto
  note cl = cl[unfolded zero] and cl' = cl'[unfolded zero]
  have lt: "p0 < 4" "p1 < 4" "n0 < 4" "z0 < 4"
    using classify_pos(1)[OF cl] classify_neg(1)[OF cl] classify_zero(1)[OF cl] by simp_all
  have dd: "distinct [p0, p1, n0, z0]" using classify_facts(1)[OF cl] by simp
  have lenC: "length C = 4" by (rule classify_facts(6)[OF cl])
  have sg: "0 < C ! p0" "0 < C ! p1" "C ! n0 < 0"
    using classify_facts(3)[OF cl] classify_facts(4)[OF cl] by simp_all
  define P0 where "P0 = fl_get t p0"
  define P1 where "P1 = fl_get t p1"
  define N where "N = fl_get t n0"
  define Z where "Z = fl_get t z0"
  obtain a0 b0 where w0: "a0 + b0 = 1" "0 \<le> a0" "0 \<le> b0"
    "\<And>p q. intersectionPoint (C ! p0) (C ! n0) p q = smul a0 p + smul b0 q"
    "\<And>p q. intersectionPoint (- (C ! n0)) (- (C ! p0)) q p = smul a0 p + smul b0 q"
    using ip_weights[OF sg(1) sg(3)] by metis
  obtain a1 b1 where w1: "a1 + b1 = 1" "0 \<le> a1" "0 \<le> b1"
    "\<And>p q. intersectionPoint (C ! p1) (C ! n0) p q = smul a1 p + smul b1 q"
    "\<And>p q. intersectionPoint (- (C ! n0)) (- (C ! p1)) q p = smul a1 p + smul b1 q"
    using ip_weights[OF sg(2) sg(3)] by metis
  define I0 where "I0 = smul a0 P0 + smul b0 N"
  define I1 where "I1 = smul a1 P1 + smul b1 N"
  have outH: "splitAndDecompose (n, d) t [] = [fl_set (fl_set t p0 I0) p1 I1]"
    using dd lt
    by (simp add: splitAndDecompose_def splitLog_C[OF cl] Let_def edgePoint_eq w0(4) w1(4)
        I0_def I1_def P0_def P1_def N_def)
  have outH': "splitAndDecompose (- n, - d) t [] = [fl_set t n0 I0, FixedList4 I1 Z P1 I0]"
    using dd lt
    by (simp add: splitAndDecompose_def splitLog_E[OF cl'] Let_def edgePoint_eq
        uminus_nth4[OF lenC] w0(5) w1(5)
        I0_def I1_def P0_def P1_def N_def Z_def)
  have v0: "tetV t = \<bar>sv P0 P1 N Z\<bar> / 6"
    using tetV_idx[OF dd lt, of t] by (simp add: P0_def P1_def N_def Z_def)
  have v1: "tetV (fl_set (fl_set t p0 I0) p1 I1) = \<bar>sv I0 I1 N Z\<bar> / 6"
    using tetV_idx[OF dd lt, of "fl_set (fl_set t p0 I0) p1 I1"] dd lt
    by (simp add: fl_get_set N_def Z_def)
  have v2: "tetV (fl_set t n0 I0) = \<bar>sv P0 P1 I0 Z\<bar> / 6"
    using tetV_idx[OF dd lt, of "fl_set t n0 I0"] dd lt
    by (simp add: fl_get_set P0_def P1_def Z_def)
  have "\<bar>sv I0 I1 N Z\<bar> + (\<bar>sv P0 P1 I0 Z\<bar> + \<bar>sv I1 Z P1 I0\<bar>) = \<bar>sv P0 P1 N Z\<bar>"
    unfolding I0_def I1_def
    by (rule vol_CE[OF w0(1) w1(1) w0(2,3) w1(2,3)])
  then show ?thesis
    by (simp add: clipVolume_def outH outH' v0 v1 v2 tetV_sv add_divide_distrib[symmetric])
qed

lemma conservation_F:
  assumes cl: "classify (n, d) t = (C, [p0], [n0], zero)"
  shows "clipVolume (n, d) t + clipVolume (- n, - d) t = tetV t"
proof -
  note cl' = classify_opposite[OF cl]
  have "length [p0] + length [n0] + length zero = 4" by (rule classify_lengths[OF cl])
  then obtain z0 z1 where zero: "zero = [z0, z1]"
    by (cases zero; cases "tl zero") auto
  note cl = cl[unfolded zero] and cl' = cl'[unfolded zero]
  have lt: "p0 < 4" "n0 < 4" "z0 < 4" "z1 < 4"
    using classify_pos(1)[OF cl] classify_neg(1)[OF cl] classify_zero(1)[OF cl] by simp_all
  have dd: "distinct [p0, n0, z0, z1]" using classify_facts(1)[OF cl] by simp
  have lenC: "length C = 4" by (rule classify_facts(6)[OF cl])
  have sg: "0 < C ! p0" "C ! n0 < 0"
    using classify_facts(3)[OF cl] classify_facts(4)[OF cl] by simp_all
  define P0 where "P0 = fl_get t p0"
  define N where "N = fl_get t n0"
  define Z0 where "Z0 = fl_get t z0"
  define Z1 where "Z1 = fl_get t z1"
  obtain a0 b0 where w0: "a0 + b0 = 1" "0 \<le> a0" "0 \<le> b0"
    "\<And>p q. intersectionPoint (C ! p0) (C ! n0) p q = smul a0 p + smul b0 q"
    "\<And>p q. intersectionPoint (- (C ! n0)) (- (C ! p0)) q p = smul a0 p + smul b0 q"
    using ip_weights[OF sg(1) sg(2)] by metis
  define I0 where "I0 = smul a0 P0 + smul b0 N"
  have outH: "splitAndDecompose (n, d) t [] = [fl_set t p0 I0]"
    using dd lt
    by (simp add: splitAndDecompose_def splitLog_F[OF cl] Let_def edgePoint_eq w0(4)
        I0_def P0_def N_def)
  have outH': "splitAndDecompose (- n, - d) t [] = [fl_set t n0 I0]"
    using dd lt
    by (simp add: splitAndDecompose_def splitLog_F[OF cl'] Let_def edgePoint_eq
        uminus_nth4[OF lenC] w0(5) I0_def P0_def N_def)
  have v0: "tetV t = \<bar>sv P0 N Z0 Z1\<bar> / 6"
    using tetV_idx[OF dd lt, of t] by (simp add: P0_def N_def Z0_def Z1_def)
  have v1: "tetV (fl_set t p0 I0) = \<bar>sv I0 N Z0 Z1\<bar> / 6"
    using tetV_idx[OF dd lt, of "fl_set t p0 I0"] dd lt
    by (simp add: fl_get_set N_def Z0_def Z1_def)
  have v2: "tetV (fl_set t n0 I0) = \<bar>sv P0 I0 Z0 Z1\<bar> / 6"
    using tetV_idx[OF dd lt, of "fl_set t n0 I0"] dd lt
    by (simp add: fl_get_set P0_def Z0_def Z1_def)
  have "\<bar>sv I0 N Z0 Z1\<bar> + \<bar>sv P0 I0 Z0 Z1\<bar> = \<bar>sv P0 N Z0 Z1\<bar>"
    unfolding I0_def by (rule vol_FF[OF w0(1) w0(2,3)])
  then show ?thesis
    by (simp add: clipVolume_def outH outH' v0 v1 v2 add_divide_distrib[symmetric])
qed

lemma conservation_noPos:
  assumes cl: "classify (n, d) t = (C, [], m # ms, zero)"
  shows "clipVolume (n, d) t + clipVolume (- n, - d) t = tetV t"
  by (simp add: clipVolume_def splitAndDecompose_def splitLog_noPos[OF cl]
      splitLog_noNeg[OF classify_opposite[OF cl]])

lemma conservation_zero:
  assumes cl: "classify (n, d) t = (C, [], [], zero)" and n: "n \<noteq> 0"
  shows "clipVolume (n, d) t + clipVolume (- n, - d) t = tetV t"
proof -
  obtain a b c e where t: "t = FixedList4 a b c e" by (cases t)
  have z: "\<And>i. i < 4 \<Longrightarrow> signedDistance (n, d) (fl_get t i) = 0"
    using classify_cover[OF cl] classify_zero(2)[OF cl] by auto
  have "dot a n = d" "dot b n = d" "dot c n = d" "dot e n = d"
    using z[of 0] z[of 1] z[of 2] z[of 3] by (simp_all add: t signedDistance_def)
  then have "sv a b c e = 0" using n by (rule sv_coplanar)
  then have "tetV t = 0" by (simp add: t tetV_sv)
  then show ?thesis
    by (simp add: clipVolume_def splitAndDecompose_def splitLog_noNeg[OF cl]
        splitLog_noNeg[OF classify_opposite[OF cl]])
qed

lemma conservation_direct:
  assumes cl: "classify (n, d) t = (C, pos, neg, zero)"
    and dir: "neg \<noteq> []" "pos = [] \<or> length neg \<le> length pos"
  shows "clipVolume (n, d) t + clipVolume (- n, - d) t = tetV t"
  using cl
proof (cases rule: split_cases)
  case noNeg
  with dir show ?thesis by simp
next
  case noPos
  then obtain m ms where "neg = m # ms" by (cases neg) auto
  with cl noPos show ?thesis by (simp add: conservation_noPos)
next
  case (A p0 p1 p2 n0)
  with cl show ?thesis by (simp add: conservation_A)
next
  case (B p0 p1 n0 n1)
  with cl show ?thesis by (simp add: conservation_B)
next
  case (C p0 p1 n0 z0)
  with cl show ?thesis by (simp add: conservation_C)
next
  case (D p0 n0 n1 n2)
  with dir show ?thesis by simp
next
  case (E p0 n0 n1 z0)
  with dir show ?thesis by simp
next
  case (F p0 n0 z0 z1)
  with cl show ?thesis by (simp add: conservation_F)
qed

lemma conservation:
  assumes n: "n \<noteq> 0"
  shows "clipVolume (n, d) t + clipVolume (- n, - d) t = tetV t"
proof -
  obtain C pos neg zero where cl: "classify (n, d) t = (C, pos, neg, zero)"
    by (metis prod_cases4)
  note cl' = classify_opposite[OF cl]
  consider (zero) "pos = []" "neg = []"
    | (direct) "neg \<noteq> []" "pos = [] \<or> length neg \<le> length pos"
    | (dual) "pos \<noteq> []" "neg = [] \<or> length pos \<le> length neg"
    by (cases "length neg \<le> length pos") auto
  then show ?thesis
  proof cases
    case zero
    with cl n show ?thesis by (simp add: conservation_zero)
  next
    case direct
    then show ?thesis by (rule conservation_direct[OF cl])
  next
    case dual
    have "clipVolume (- n, - d) t + clipVolume (- (- n), - (- d)) t = tetV t"
      by (rule conservation_direct[OF cl' dual])
    then show ?thesis by (simp add: add.commute)
  qed
qed



section \<open>Values of the division block in double precision\<close>

lemma floorlog2_eq:
  assumes "2 ^ (k - 1) \<le> x" "x < 2 ^ k" "0 < k"
  shows "floorlog 2 x = k"
proof (rule antisym)
  show "floorlog 2 x \<le> k" using assms(2) by (intro floorlog_leI) simp_all
  show "k \<le> floorlog 2 x" using assms(1) by (intro floorlog_geI) simp_all
qed

lemma fl: "floorlog 2 5 = 3" "floorlog 2 6 = 3" "floorlog 2 1 = 1"
  by (rule floorlog2_eq; simp)+

lemma e6: "expo 6 = 2"
  by (simp add: expo_def fl)

lemma e16: "expo (1 / 6) = - 3"
  by (simp add: expo_def fl)

lemma r6: "round64 6 = Some 6"
  by (simp add: round64_def e6 pow2_def roundEven_def Let_def)

lemma r16: "round64 (1 / 6) = Some (6004799503160661 / 2 ^ 55)"
  by (simp add: round64_def e16 pow2_def roundEven_def Let_def)

lemma fl1: "floorlog 2 (Suc 0) = Suc 0"
  by (rule floorlog2_eq; simp)

lemma fl70: "floorlog 2 (2 ^ 70 - 1) = 70"
proof (rule floorlog2_eq)
  have "(2::nat) ^ 69 + 2 ^ 69 = 2 ^ 70" by simp
  then show "(2::nat) ^ (70 - 1) \<le> 2 ^ 70 - 1" by simp
  show "(2::nat) ^ 70 - 1 < 2 ^ 70" by simp
  show "(0::nat) < 70" by simp
qed

lemma e_w0: "expo (5 * (6004799503160661 / 2 ^ 55)) = - 1"
  by (simp add: expo_def fl fl1)

lemma e_w1: "expo (6004799503160661 / 2 ^ 55) = - 3"
  by (simp add: expo_def fl fl1)

lemma r_w0: "round64 (5 * (6004799503160661 / 2 ^ 55)) = Some (3752999689475413 / 2 ^ 52)"
  unfolding round64_def Let_def e_w0
  by (simp add: pow2_def roundEven_def)

lemma r_w1: "round64 (6004799503160661 / 2 ^ 55) = Some (6004799503160661 / 2 ^ 55)"
  unfolding round64_def Let_def e_w1
  by (simp add: pow2_def roundEven_def)

lemma wA: "edgeWeightsD 1 (- 5) = Some (3752999689475413 / 2 ^ 52, 6004799503160661 / 2 ^ 55)"
proof -
  have d: "round64 (1 - (- 5)) = Some 6" by (simp add: r6)
  have n: "((6::real) = 0) = False" by simp
  have a: "- (- 5) * (6004799503160661 / 2 ^ 55) = 5 * (6004799503160661 / 2 ^ 55 :: real)"
    by simp
  have b: "1 * (6004799503160661 / 2 ^ 55) = (6004799503160661 / 2 ^ 55 :: real)"
    by simp
  show ?thesis
    unfolding edgeWeightsD_def
    by (simp only: d Option.bind_lunit n if_False r16 a b r_w0 r_w1)
qed

lemma e_sum: "expo (3752999689475413 / 2 ^ 52 + 6004799503160661 / 2 ^ 55) = - 1"
  by (simp add: expo_def fl fl1)

lemma r_sum: "round64 (3752999689475413 / 2 ^ 52 + 6004799503160661 / 2 ^ 55)
    = Some (9007199254740991 / 2 ^ 53)"
  unfolding round64_def Let_def e_sum
  by (simp add: pow2_def roundEven_def)

lemma e_1p: "expo (1 + 1 / 2 ^ 70) = 0"
  by (simp add: expo_def fl fl1)

lemma r_1p: "round64 (1 + 1 / 2 ^ 70) = Some 1"
  unfolding round64_def Let_def e_1p
  by (simp add: pow2_def roundEven_def)

lemma e_1: "expo 1 = 0"
  by (simp add: expo_def fl fl1)

lemma r_1: "round64 1 = Some 1"
  unfolding round64_def Let_def e_1
  by (simp add: pow2_def roundEven_def)

lemma e_70: "expo (1 / 2 ^ 70) = - 70"
proof -
  have "nat (\<lceil>1 / \<bar>1 / 2 ^ 70 :: real\<bar>\<rceil> - 1) = 2 ^ 70 - 1" by simp
  moreover have "\<not> 1 \<le> \<bar>1 / 2 ^ 70 :: real\<bar>" by simp
  ultimately show ?thesis
    unfolding expo_def by (simp only: if_False fl70)
qed

lemma r_70: "round64 (1 / 2 ^ 70) = Some (1 / 2 ^ 70)"
  unfolding round64_def Let_def e_70
  by (simp add: pow2_def roundEven_def)

lemma wB: "edgeWeightsD 1 (- (1 / 2 ^ 70)) = Some (1 / 2 ^ 70, 1)"
proof -
  have d: "round64 (1 - (- (1 / 2 ^ 70))) = Some 1"
    using r_1p by (simp only: diff_minus_eq_add)
  have n: "((1::real) = 0) = False" by simp
  have i: "round64 (1 / 1) = Some 1" using r_1 by (simp only: div_by_1)
  have a: "- (- (1 / 2 ^ 70)) * 1 = (1 / 2 ^ 70 :: real)"
    by (simp only: minus_minus mult_1_right)
  have b: "1 * 1 = (1 :: real)" by simp
  show ?thesis
    unfolding edgeWeightsD_def
    by (simp only: d Option.bind_lunit n if_False i a b r_70 r_1)
qed


section \<open>The volume and centre of a list of tetrahedra\<close>

text \<open>
  Claim C5. For every list of tetrahedra, \<^verbatim>\<open>getVolumeAndCentre\<close> returns as volume
  the sum of the unsigned volumes \<open>|((t1 - t0) \<times> (t2 - t0)) \<cdot> (t3 - t0)| / 6\<close> and as
  centre the sum of the volume-weighted vertex means divided by the volume plus
  \<^verbatim>\<open>VSMALL\<close>. Exchanging two vertices of a tetrahedron leaves its volume unchanged.
  On the empty list the result is volume 0 and centre 0, and for a positive
  \<^verbatim>\<open>VSMALL\<close> the divisor is positive on every list.
\<close>

theorem getVolumeAndCentre_spec:
  "getVolumeAndCentre VSMALL tets =
     (sum_list (map unsignedVolume tets),
      vdiv (sum_list (map (\<lambda>t. smul (unsignedVolume t) (vertexMean t)) tets))
           (sum_list (map unsignedVolume tets) + VSMALL))
   \<and> fst (getVolumeAndCentre VSMALL [FixedList4 b a c d])
       = fst (getVolumeAndCentre VSMALL [FixedList4 a b c d])
   \<and> getVolumeAndCentre VSMALL [] = (0, 0)
   \<and> (0 < VSMALL \<longrightarrow> 0 < fst (getVolumeAndCentre VSMALL tets) + VSMALL)"
proof (intro conjI impI)
  show "getVolumeAndCentre VSMALL tets =
     (sum_list (map unsignedVolume tets),
      vdiv (sum_list (map (\<lambda>t. smul (unsignedVolume t) (vertexMean t)) tets))
           (sum_list (map unsignedVolume tets) + VSMALL))"
    by (simp add: getVolumeAndCentre_sum tetV_unsigned tetC_mean)
  show "fst (getVolumeAndCentre VSMALL [FixedList4 b a c d])
       = fst (getVolumeAndCentre VSMALL [FixedList4 a b c d])"
    by (simp add: getVolumeAndCentre_sum tetV_sv sv_swap12[of b a c d])
  show "getVolumeAndCentre VSMALL [] = (0, 0)"
    by (simp add: getVolumeAndCentre_sum vdiv_def zero_vector_def)
  show "0 < fst (getVolumeAndCentre VSMALL tets) + VSMALL" if "0 < VSMALL"
    using that sum_tetV_nonneg[of tets] by (simp add: getVolumeAndCentre_sum)
qed

theorem getVolumeAndCentre_spec_witness:
  "getVolumeAndCentre (1 / 10 ^ 300)
     [FixedList4 (Vector 0 0 0) (Vector 1 0 0) (Vector 0 1 0) (Vector 0 0 1)]
   = (1 / 6, vdiv (Vector (1 / 24) (1 / 24) (1 / 24)) (1 / 6 + 1 / 10 ^ 300))
   \<and> 0 < fst (getVolumeAndCentre (1 / 10 ^ 300)
       [FixedList4 (Vector 0 0 0) (Vector 1 0 0) (Vector 0 1 0) (Vector 0 0 1)]) + 1 / 10 ^ 300"
proof -
  define e :: real where "e = 1 / 10 ^ 300"
  have pos: "0 < e" by (simp add: e_def)
  note th = getVolumeAndCentre_spec[where VSMALL = e
      and tets = "[FixedList4 (Vector 0 0 0) (Vector 1 0 0) (Vector 0 1 0) (Vector 0 0 1)]"]
  have "getVolumeAndCentre e
     [FixedList4 (Vector 0 0 0) (Vector 1 0 0) (Vector 0 1 0) (Vector 0 0 1)]
   = (1 / 6, vdiv (Vector (1 / 24) (1 / 24) (1 / 24)) (1 / 6 + e))
   \<and> 0 < fst (getVolumeAndCentre e
       [FixedList4 (Vector 0 0 0) (Vector 1 0 0) (Vector 0 1 0) (Vector 0 0 1)]) + e"
    using th[THEN conjunct1]
      th[THEN conjunct2, THEN conjunct2, THEN conjunct2, rule_format, OF pos]
    by (simp add: unsignedVolume_def vertexMean_def vec_defs)
  then show ?thesis unfolding e_def .
qed


section \<open>The trivial cases of the clipper\<close>

text \<open>
  Claim C3, as amended. If no vertex of the tetrahedron has a signed distance below 0,
  \<^verbatim>\<open>splitAndDecompose\<close> appends nothing. If no vertex has a signed distance above 0
  and at least one vertex has a signed distance below 0, it appends exactly the
  tetrahedron, unchanged, vertices on the plane included.
\<close>

theorem trivial_cases:
  "((\<forall>i<4. \<not> signedDistance clipPlane (fl_get tet i) < 0) \<longrightarrow>
      splitAndDecompose clipPlane tet decompTets = decompTets)
   \<and> ((\<forall>i<4. \<not> 0 < signedDistance clipPlane (fl_get tet i)) \<and>
       (\<exists>i<4. signedDistance clipPlane (fl_get tet i) < 0) \<longrightarrow>
      splitAndDecompose clipPlane tet decompTets = decompTets @ [tet])"
proof -
  obtain C pos neg zero where cl: "classify clipPlane tet = (C, pos, neg, zero)"
    by (metis prod_cases4)
  show ?thesis
  proof (intro conjI impI)
    assume "\<forall>i<4. \<not> signedDistance clipPlane (fl_get tet i) < 0"
    then have "neg = []" using neg_empty_iff[OF cl] by simp
    with cl show "splitAndDecompose clipPlane tet decompTets = decompTets"
      by (simp add: splitAndDecompose_def splitLog_noNeg)
  next
    assume a: "(\<forall>i<4. \<not> 0 < signedDistance clipPlane (fl_get tet i)) \<and>
       (\<exists>i<4. signedDistance clipPlane (fl_get tet i) < 0)"
    then have "pos = []" using pos_empty_iff[OF cl] by simp
    moreover from a have "neg \<noteq> []" using neg_empty_iff[OF cl] by blast
    then obtain n ns where "neg = n # ns" by (cases neg) auto
    ultimately show "splitAndDecompose clipPlane tet decompTets = decompTets @ [tet]"
      using cl by (simp add: splitAndDecompose_def splitLog_noPos)
  qed
qed

theorem trivial_cases_witness:
  "splitAndDecompose (Vector 1 0 0, - 1)
     (FixedList4 (Vector 0 0 0) (Vector 1 0 0) (Vector 0 1 0) (Vector 0 0 1)) [] = []
   \<and> splitAndDecompose (Vector 1 0 0, 1)
     (FixedList4 (Vector 0 0 0) (Vector 1 0 0) (Vector 0 1 0) (Vector 0 0 1)) []
     = [FixedList4 (Vector 0 0 0) (Vector 1 0 0) (Vector 0 1 0) (Vector 0 0 1)]"
  using trivial_cases[of "(Vector 1 0 0, - 1)"
      "FixedList4 (Vector 0 0 0) (Vector 1 0 0) (Vector 0 1 0) (Vector 0 0 1)" "[]"]
    trivial_cases[of "(Vector 1 0 0, 1)"
      "FixedList4 (Vector 0 0 0) (Vector 1 0 0) (Vector 0 1 0) (Vector 0 0 1)" "[]"]
  by (simp add: all_lt4 ex_lt4 signedDistance_def dot_def)

text \<open>
  The claim as first stated asks for the tetrahedron to be appended whenever no vertex
  is on the positive side. A tetrahedron with all four vertices on the plane has no
  vertex on the positive side, and nothing is appended for it: the test for the
  absence of negative vertices comes first.
\<close>

theorem on_plane_counterexample:
  "\<not> 0 < signedDistance (Vector 1 0 0, 0) (Vector 0 0 0)
   \<and> \<not> 0 < signedDistance (Vector 1 0 0, 0) (Vector 0 1 0)
   \<and> \<not> 0 < signedDistance (Vector 1 0 0, 0) (Vector 0 0 1)
   \<and> \<not> 0 < signedDistance (Vector 1 0 0, 0) (Vector 0 1 1)
   \<and> splitAndDecompose (Vector 1 0 0, 0)
       (FixedList4 (Vector 0 0 0) (Vector 0 1 0) (Vector 0 0 1) (Vector 0 1 1)) []
       \<noteq> [] @ [FixedList4 (Vector 0 0 0) (Vector 0 1 0) (Vector 0 0 1) (Vector 0 1 1)]
   \<and> splitAndDecompose (Vector 1 0 0, 0)
       (FixedList4 (Vector 0 0 0) (Vector 0 1 0) (Vector 0 0 1) (Vector 0 1 1)) [] = []"
  by (simp add: splitAndDecompose_def splitAndDecomposeLog_def classify_eq upt4
      signedDistance_def dot_def)


section \<open>The output buffer\<close>

text \<open>
  Claim C9. \<^verbatim>\<open>decomposeCell\<close> clears the buffer it is given before it appends: its
  result is the one it gives on the empty buffer. \<^verbatim>\<open>splitAndDecompose\<close> never
  clears: its result is the buffer it was given followed by the tetrahedra it appends,
  so every element that was in the buffer is unchanged at its index.
\<close>

theorem buffer_frame:
  "decomposeCell mesh points cellIndex xC tetDecomp xT
     = decomposeCell mesh points cellIndex xC [] xT
   \<and> splitAndDecompose clipPlane tet decompTets
     = decompTets @ splitAndDecompose clipPlane tet []
   \<and> take (length decompTets) (splitAndDecompose clipPlane tet decompTets) = decompTets
   \<and> length decompTets \<le> length (splitAndDecompose clipPlane tet decompTets)"
proof -
  have a: "splitAndDecompose clipPlane tet decompTets
     = decompTets @ splitAndDecompose clipPlane tet []"
    by (rule split_append)
  have b: "take (length decompTets) (splitAndDecompose clipPlane tet decompTets) = decompTets"
    by (subst a) simp
  have c: "length decompTets \<le> length (splitAndDecompose clipPlane tet decompTets)"
    by (subst a) simp
  from a b c decomposeCell_clears show ?thesis by blast
qed


section \<open>The case of two positive and two negative vertices\<close>

text \<open>
  Claim C2. When exactly two vertices are classified positive and two negative,
  \<^verbatim>\<open>splitAndDecompose\<close> appends exactly three tetrahedra, in this order: the input
  with the vertex at \<open>pos[0]\<close> replaced by \<open>I2 = I(P0, N1)\<close> and the vertex at
  \<open>pos[1]\<close> replaced by \<open>I1 = I(P1, N0)\<close>, the negative vertices staying where they
  were; then \<open>(N1, I3, I2, I1)\<close> with \<open>I3 = I(P1, N1)\<close>; then \<open>(N0, I0, I1, I2)\<close> with
  \<open>I0 = I(P0, N0)\<close>. \<open>I(p, q)\<close> is the edge-intersection point of the specification.
\<close>

theorem case_B_output:
  assumes "classify clipPlane tet = (C, pos, neg, zero)"
    and "length pos = 2" and "length neg = 2"
  shows
    "let P0 = fl_get tet (pos ! 0); P1 = fl_get tet (pos ! 1);
         N0 = fl_get tet (neg ! 0); N1 = fl_get tet (neg ! 1);
         I = (\<lambda>p q. intersectionPoint (signedDistance clipPlane p)
                                      (signedDistance clipPlane q) p q);
         I0 = I P0 N0; I1 = I P1 N0; I2 = I P0 N1; I3 = I P1 N1;
         first = fl_set (fl_set tet (pos ! 0) I2) (pos ! 1) I1
     in splitAndDecompose clipPlane tet decompTets
          = decompTets @ [first, FixedList4 N1 I3 I2 I1, FixedList4 N0 I0 I1 I2]
        \<and> fl_get first (neg ! 0) = N0 \<and> fl_get first (neg ! 1) = N1"
proof -
  from assms(2) obtain p0 p1 where pos: "pos = [p0, p1]"
    by (auto simp: length_Suc_conv numeral_2_eq_2)
  from assms(3) obtain n0 n1 where neg: "neg = [n0, n1]"
    by (auto simp: length_Suc_conv numeral_2_eq_2)
  note cl = assms(1)[unfolded pos neg]
  have d: "distinct [p0, p1, n0, n1]"
    using classify_facts(1)[OF cl] by simp
  have "set ([p0, p1] @ [n0, n1] @ zero) = {0..<4}"
    by (rule classify_facts(2)[OF cl])
  then have lt: "p0 < 4" "p1 < 4" "n0 < 4" "n1 < 4" by auto
  have C: "C ! p0 = signedDistance clipPlane (fl_get tet p0)"
    "C ! p1 = signedDistance clipPlane (fl_get tet p1)"
    "C ! n0 = signedDistance clipPlane (fl_get tet n0)"
    "C ! n1 = signedDistance clipPlane (fl_get tet n1)"
    using classify_facts(7)[OF cl] lt by simp_all
  show ?thesis
    using d lt
    by (simp add: pos neg splitAndDecompose_def splitLog_B[OF cl] Let_def edgePoint_eq C)
qed

theorem case_B_output_witness:
  "splitAndDecompose (Vector 1 1 (- 1), 1 / 2)
     (FixedList4 (Vector 0 0 0) (Vector 1 0 0) (Vector 0 1 0) (Vector 0 0 1)) []
   = [FixedList4 (Vector 0 0 0) (Vector (3 / 4) 0 (1 / 4)) (Vector 0 (1 / 2) 0) (Vector 0 0 1),
      FixedList4 (Vector 0 0 1) (Vector 0 (3 / 4) (1 / 4)) (Vector (3 / 4) 0 (1 / 4))
                 (Vector 0 (1 / 2) 0),
      FixedList4 (Vector 0 0 0) (Vector (1 / 2) 0 0) (Vector 0 (1 / 2) 0)
                 (Vector (3 / 4) 0 (1 / 4))]"
proof -
  have cl: "classify (Vector 1 1 (- 1), 1 / 2)
      (FixedList4 (Vector 0 0 0) (Vector 1 0 0) (Vector 0 1 0) (Vector 0 0 1))
    = ([- 1 / 2, 1 / 2, 1 / 2, - 3 / 2], [1, 2], [0, 3], [])"
    by (simp add: classify_eq upt4 signedDistance_def dot_def)
  show ?thesis
    using case_B_output[OF cl, of "[]"]
    by (simp add: Let_def intersectionPoint_def signedDistance_def vec_defs)
qed


section \<open>The divisions of the clipper\<close>

text \<open>
  Claim C4, as amended. Every division that \<^verbatim>\<open>splitAndDecompose\<close> executes is
  \<open>1 / (C[a] - C[b])\<close> for a vertex \<open>a\<close> classified positive and a vertex \<open>b\<close>
  classified negative, so \<open>C[a] > 0\<close>, \<open>C[b] < 0\<close> and the difference is positive; if any
  division is executed, there is a positive and a negative vertex. In exact arithmetic
  the weights computed from the division add up to 1 and lie strictly between 0 and 1.
\<close>

theorem division_sites:
  assumes cl: "classify clipPlane tet = (C, pos, neg, zero)"
  shows "(\<forall>(a, b) \<in> set (snd (splitAndDecomposeLog clipPlane tet decompTets)).
            a \<in> set pos \<and> b \<in> set neg \<and> 0 < C ! a \<and> C ! b < 0 \<and> 0 < C ! a - C ! b \<and>
            (case edgeWeights C a b of (w0, w1) \<Rightarrow>
               w0 + w1 = 1 \<and> 0 < w0 \<and> w0 < 1 \<and> 0 < w1 \<and> w1 < 1))
         \<and> (snd (splitAndDecomposeLog clipPlane tet decompTets) \<noteq> [] \<longrightarrow>
              pos \<noteq> [] \<and> neg \<noteq> [])"
proof -
  let ?divs = "snd (splitAndDecomposeLog clipPlane tet decompTets)"
  have sub: "set ?divs \<subseteq> set pos \<times> set neg"
    by (rule divs_subset[OF cl])
  have site: "a \<in> set pos \<and> b \<in> set neg \<and> 0 < C ! a \<and> C ! b < 0 \<and> 0 < C ! a - C ! b \<and>
            (case edgeWeights C a b of (w0, w1) \<Rightarrow>
               w0 + w1 = 1 \<and> 0 < w0 \<and> w0 < 1 \<and> 0 < w1 \<and> w1 < 1)"
    if "(a, b) \<in> set ?divs" for a b
  proof -
    from that sub have ab: "a \<in> set pos" "b \<in> set neg" by auto
    have ca: "0 < C ! a" by (rule classify_facts(3)[OF cl ab(1)])
    have cb: "C ! b < 0" by (rule classify_facts(4)[OF cl ab(2)])
    from ca cb have "0 < C ! a - C ! b" by simp
    with ab ca cb edgeWeights_props[OF ca cb] show ?thesis by simp
  qed
  have ne: "pos \<noteq> [] \<and> neg \<noteq> []" if "?divs \<noteq> []"
  proof -
    from that obtain a b where "(a, b) \<in> set ?divs" by (cases ?divs) auto
    with sub show ?thesis by auto
  qed
  show ?thesis
  proof (intro conjI ballI impI)
    fix x assume x: "x \<in> set ?divs"
    obtain a b where ab: "x = (a, b)" by (cases x)
    show "case x of (a, b) \<Rightarrow>
            a \<in> set pos \<and> b \<in> set neg \<and> 0 < C ! a \<and> C ! b < 0 \<and> 0 < C ! a - C ! b \<and>
            (case edgeWeights C a b of (w0, w1) \<Rightarrow>
               w0 + w1 = 1 \<and> 0 < w0 \<and> w0 < 1 \<and> 0 < w1 \<and> w1 < 1)"
      using site[of a b] x unfolding ab by (simp only: prod.case) 
  next
    assume "?divs \<noteq> []"
    then show "pos \<noteq> []" "neg \<noteq> []" using ne by simp_all
  qed
qed


theorem division_sites_witness:
  "snd (splitAndDecomposeLog (Vector 1 0 0, 1 / 2)
      (FixedList4 (Vector 0 0 0) (Vector 1 0 0) (Vector 0 1 0) (Vector 0 0 1)) [])
     = [(1, 0), (1, 2), (1, 3)]
   \<and> edgeWeights [- 1 / 2, 1 / 2, - 1 / 2, - 1 / 2] 1 0 = (1 / 2, 1 / 2)
   \<and> (0::real) < 1 / 2 - (- 1 / 2)"
proof -
  have cl: "classify (Vector 1 0 0, 1 / 2)
      (FixedList4 (Vector 0 0 0) (Vector 1 0 0) (Vector 0 1 0) (Vector 0 0 1))
    = ([- 1 / 2, 1 / 2, - 1 / 2, - 1 / 2], [1], [0, 2, 3], [])"
    by (simp add: classify_eq upt4 signedDistance_def dot_def)
  show ?thesis
    using division_sites[OF cl, of "[]"]
    by (simp add: splitLog_D[OF cl] Let_def edgeWeights_def)
qed

text \<open>
  The claim as first stated has the weights themselves add up to 1 and lie strictly
  between 0 and 1. The weights of the program are double precision numbers. For the
  plane \<open>x = 0\<close> and a tetrahedron with one vertex at \<open>x = 1\<close>, one at \<open>x = - 5\<close> and two
  on the plane, the signed distances are computed without rounding, there is one
  division, and its weights are \<open>3752999689475413 / 2 ^ 52\<close> and
  \<open>6004799503160661 / 2 ^ 55\<close>: their sum is not 1, and the double precision sum is not 1
  either. With the negative vertex at \<open>x = - 2 ^ (- 70)\<close> the weight \<open>w1\<close> is 1.
\<close>

theorem double_weights_counterexample:
  "classify (Vector 1 0 0, 0)
      (FixedList4 (Vector 1 0 0) (Vector (- 5) 1 0) (Vector 0 0 1) (Vector 0 1 1))
     = ([1, - 5, 0, 0], [0], [1], [2, 3])
   \<and> snd (splitAndDecomposeLog (Vector 1 0 0, 0)
      (FixedList4 (Vector 1 0 0) (Vector (- 5) 1 0) (Vector 0 0 1) (Vector 0 1 1)) [])
     = [(0, 1)]
   \<and> edgeWeightsD 1 (- 5) = Some (3752999689475413 / 2 ^ 52, 6004799503160661 / 2 ^ 55)
   \<and> 3752999689475413 / 2 ^ 52 + 6004799503160661 / 2 ^ 55 \<noteq> (1::real)
   \<and> round64 (3752999689475413 / 2 ^ 52 + 6004799503160661 / 2 ^ 55)
     = Some (9007199254740991 / 2 ^ 53)
   \<and> 9007199254740991 / 2 ^ 53 \<noteq> (1::real)
   \<and> classify (Vector 1 0 0, 0)
      (FixedList4 (Vector 1 0 0) (Vector (- (1 / 2 ^ 70)) 1 0) (Vector 0 0 1) (Vector 0 1 1))
     = ([1, - (1 / 2 ^ 70), 0, 0], [0], [1], [2, 3])
   \<and> edgeWeightsD 1 (- (1 / 2 ^ 70)) = Some (1 / 2 ^ 70, 1)"
proof -
  have c1: "classify (Vector 1 0 0, 0)
      (FixedList4 (Vector 1 0 0) (Vector (- 5) 1 0) (Vector 0 0 1) (Vector 0 1 1))
     = ([1, - 5, 0, 0], [0], [1], [2, 3])"
    by (simp add: classify_eq upt4 signedDistance_def dot_def)
  have s1: "snd (splitAndDecomposeLog (Vector 1 0 0, 0)
      (FixedList4 (Vector 1 0 0) (Vector (- 5) 1 0) (Vector 0 0 1) (Vector 0 1 1)) [])
     = [(0, 1)]"
    by (simp add: splitLog_F[OF c1])
  have n1: "3752999689475413 / 2 ^ 52 + 6004799503160661 / 2 ^ 55 \<noteq> (1::real)" by simp
  have n2: "9007199254740991 / 2 ^ 53 \<noteq> (1::real)" by simp
  have c2: "classify (Vector 1 0 0, 0)
      (FixedList4 (Vector 1 0 0) (Vector (- (1 / 2 ^ 70)) 1 0) (Vector 0 0 1) (Vector 0 1 1))
     = ([1, - (1 / 2 ^ 70), 0, 0], [0], [1], [2, 3])"
    by (simp add: classify_eq upt4 signedDistance_def dot_def)
  from c1 s1 wA n1 r_sum n2 c2 wB show ?thesis by (intro conjI)
qed


section \<open>The appended tetrahedra lie in the half-space\<close>




section \<open>The tetrahedral cell\<close>

text \<open>
  Claim C6. For a cell with exactly four faces whose labels are in range, whose first
  face has at least three vertices and whose second face has exactly one vertex \<open>v\<close>
  outside the first three vertices of the first face, \<^verbatim>\<open>decomposeCell\<close> returns exactly
  one tetrahedron: the first three vertices of the first face, in face order, and then
  \<open>v\<close>, each translated by \<open>- xT\<close>. The result does not depend on \<open>xC\<close>.
\<close>

theorem tetrahedral_cell:
  assumes "cellIndex < length (cells mesh)"
    and "length (cells mesh ! cellIndex) = 4"
    and "cells mesh ! cellIndex ! 0 < length (faces mesh)"
    and "cells mesh ! cellIndex ! 1 < length (faces mesh)"
    and "firstFace = faces mesh ! (cells mesh ! cellIndex ! 0)"
    and "secondFace = faces mesh ! (cells mesh ! cellIndex ! 1)"
    and "3 \<le> length firstFace"
    and "firstFace ! 0 < length points" and "firstFace ! 1 < length points"
    and "firstFace ! 2 < length points"
    and "v \<in> set secondFace"
    and "v \<noteq> firstFace ! 0 \<and> v \<noteq> firstFace ! 1 \<and> v \<noteq> firstFace ! 2"
    and "\<forall>u\<in>set secondFace.
           u \<noteq> firstFace ! 0 \<and> u \<noteq> firstFace ! 1 \<and> u \<noteq> firstFace ! 2 \<longrightarrow> u = v"
    and "v < length points"
  shows "decomposeCell mesh points cellIndex xC tetDecomp xT
         = Inr [FixedList4 (points ! (firstFace ! 0) - xT) (points ! (firstFace ! 1) - xT)
                           (points ! (firstFace ! 2) - xT) (points ! v - xT)]"
proof -
  define dCell where "dCell = cells mesh ! cellIndex"
  have c: "elemAt (cells mesh) cellIndex = Inr dCell"
    using assms(1) by (simp add: elemAt_def dCell_def)
  have len: "length dCell = 4" using assms(2) by (simp add: dCell_def)
  have d0: "elemAt dCell 0 = Inr (dCell ! 0)" and d1: "elemAt dCell 1 = Inr (dCell ! 1)"
    using len by (simp_all add: elemAt_def)
  have f0: "elemAt (faces mesh) (dCell ! 0) = Inr firstFace"
    using assms(3,5) by (simp add: elemAt_def dCell_def)
  have f1: "elemAt (faces mesh) (dCell ! 1) = Inr secondFace"
    using assms(4,6) by (simp add: elemAt_def dCell_def)
  have iso: "isolatedLoop secondFace (firstFace ! 0) (firstFace ! 1) (firstFace ! 2) points xT tmp
      = Inr (fl_set tmp 3 (Some (points ! v - xT)))" for tmp
    using assms(11-14) by (rule isolatedLoop_unique)
  have pa: "pointAt points firstFace 0 xT = Inr (points ! (firstFace ! 0) - xT)"
    "pointAt points firstFace 1 xT = Inr (points ! (firstFace ! 1) - xT)"
    "pointAt points firstFace 2 xT = Inr (points ! (firstFace ! 2) - xT)"
  proof -
    have l: "0 < length firstFace" "1 < length firstFace" "2 < length firstFace"
      using assms(7) by linarith+
    show "pointAt points firstFace 0 xT = Inr (points ! (firstFace ! 0) - xT)"
      by (rule pointAt_in[OF l(1) assms(8)])
    show "pointAt points firstFace 1 xT = Inr (points ! (firstFace ! 1) - xT)"
      by (rule pointAt_in[OF l(2) assms(9)])
    show "pointAt points firstFace 2 xT = Inr (points ! (firstFace ! 2) - xT)"
      by (rule pointAt_in[OF l(3) assms(10)])
  qed
  show ?thesis
    unfolding decomposeCell_def Let_def
    by (simp only: c bindE.simps len if_True d0 d1 f0 f1 pa iso fl_set.simps)
       (simp add: appendTmp_def)
qed

theorem tetrahedral_cell_witness:
  "decomposeCell \<lparr>faces = [[0, 1, 2], [0, 3, 1], [0, 2, 3], [1, 3, 2]], cells = [[0, 1, 2, 3]]\<rparr>
     [Vector 0 0 0, Vector 1 0 0, Vector 0 1 0, Vector 0 0 1] 0 (Vector 9 9 9) [] (Vector 1 0 0)
   = Inr [FixedList4 (Vector (- 1) 0 0) (Vector 0 0 0) (Vector (- 1) 1 0) (Vector (- 1) 0 1)]"
  using tetrahedral_cell[of 0
      "\<lparr>faces = [[0, 1, 2], [0, 3, 1], [0, 2, 3], [1, 3, 2]], cells = [[0, 1, 2, 3]]\<rparr>"
      "[0, 1, 2]" "[0, 3, 1]" "[Vector 0 0 0, Vector 1 0 0, Vector 0 1 0, Vector 0 0 1]" 3
      "Vector 9 9 9" "[]" "Vector 1 0 0"]
  by (simp add: minus_vector_def zero_vector_def)


section \<open>The general cell\<close>

text \<open>
  Claim C7. For a cell whose number of faces is not four and whose labels are in range,
  \<^verbatim>\<open>decomposeCell\<close> returns, face after face in the order of the cell, one
  tetrahedron \<open>(v0, v1, v2, xC)\<close> for a triangle and otherwise one tetrahedron
  \<open>(v_i, v_{i+1 mod k}, faceCentroid, xC)\<close> for each of the \<open>k\<close> edges of the face, the
  face centroid being the arithmetic mean of the face's vertices; every vertex,
  \<open>xC\<close> and the face centroid included, is translated by \<open>- xT\<close>.
\<close>

theorem general_cell:
  assumes "cellIndex < length (cells mesh)"
    and "length (cells mesh ! cellIndex) \<noteq> 4"
    and "\<forall>fI\<in>set (cells mesh ! cellIndex).
           fI < length (faces mesh) \<and> (\<forall>l\<in>set (faces mesh ! fI). l < length points)"
  shows "decomposeCell mesh points cellIndex xC tetDecomp xT
         = Inr (concat (map (\<lambda>fI. fanTets points xC xT (faces mesh ! fI))
                            (cells mesh ! cellIndex)))"
proof -
  define dCell where "dCell = cells mesh ! cellIndex"
  have c: "elemAt (cells mesh) cellIndex = Inr dCell"
    using assms(1) by (simp add: elemAt_def dCell_def)
  have len: "(length dCell = 4) = False" using assms(2) by (simp add: dCell_def)
  obtain s0 s1 s2 where
    "foldE (faceStep mesh points xT) dCell (FixedList4 None None None (Some (xC - xT)), [])
       = Inr (FixedList4 s0 s1 s2 (Some (xC - xT)),
              [] @ concat (map (\<lambda>fI. fanTets points xC xT (faces mesh ! fI)) dCell))"
    using faceLoop_in[OF assms(3)[folded dCell_def]] by blast
  then show ?thesis
    unfolding decomposeCell_def Let_def dCell_def[symmetric]
    by (simp only: c bindE.simps len if_False fl_set.simps) simp
qed


theorem general_cell_witness:
  "decomposeCell \<lparr>faces = [[0, 3, 2, 1], [4, 5, 6]], cells = [[0, 1]]\<rparr>
     [Vector 0 0 0, Vector 1 0 0, Vector 1 1 0, Vector 0 1 0,
      Vector 0 0 1, Vector 1 0 1, Vector 1 1 1, Vector 0 1 1]
     0 (Vector (1 / 2) (1 / 2) (1 / 2)) [] (Vector 1 1 1)
   = Inr [FixedList4 (Vector (- 1) (- 1) (- 1)) (Vector (- 1) 0 (- 1))
            (Vector (- (1 / 2)) (- (1 / 2)) (- 1)) (Vector (- (1 / 2)) (- (1 / 2)) (- (1 / 2))),
          FixedList4 (Vector (- 1) 0 (- 1)) (Vector 0 0 (- 1))
            (Vector (- (1 / 2)) (- (1 / 2)) (- 1)) (Vector (- (1 / 2)) (- (1 / 2)) (- (1 / 2))),
          FixedList4 (Vector 0 0 (- 1)) (Vector 0 (- 1) (- 1))
            (Vector (- (1 / 2)) (- (1 / 2)) (- 1)) (Vector (- (1 / 2)) (- (1 / 2)) (- (1 / 2))),
          FixedList4 (Vector 0 (- 1) (- 1)) (Vector (- 1) (- 1) (- 1))
            (Vector (- (1 / 2)) (- (1 / 2)) (- 1)) (Vector (- (1 / 2)) (- (1 / 2)) (- (1 / 2))),
          FixedList4 (Vector (- 1) (- 1) 0) (Vector 0 (- 1) 0) (Vector 0 0 0)
            (Vector (- (1 / 2)) (- (1 / 2)) (- (1 / 2)))]"
  using general_cell[of 0 "\<lparr>faces = [[0, 3, 2, 1], [4, 5, 6]], cells = [[0, 1]]\<rparr>"
      "[Vector 0 0 0, Vector 1 0 0, Vector 1 1 0, Vector 0 1 0,
        Vector 0 0 1, Vector 1 0 1, Vector 1 1 1, Vector 0 1 1]"
      "Vector (1 / 2) (1 / 2) (1 / 2)" "[]" "Vector 1 1 1"]
  by (simp add: fanTets_def faceMean_def vec_defs upt_rec)


section \<open>Translation by the conditioning origin\<close>

text \<open>
  Claim C8, as amended. For every mesh, points array, cell index, centroid \<open>xC\<close> and
  origin \<open>xT\<close>, the result of \<^verbatim>\<open>decomposeCell\<close> with origin \<open>xT\<close> is the result with
  origin 0 with every vertex shifted by \<open>- xT\<close> (and it is an error exactly when the
  other is). For every list of tetrahedra, \<^verbatim>\<open>getVolumeAndCentre\<close> returns the same
  volume \<open>V\<close> for the shifted list, and a centre shifted by \<open>- (V / (V + VSMALL)) * xT\<close>:
  no shift at all when \<open>V = 0\<close>.
\<close>

theorem decomposeCell_translation:
  "decomposeCell mesh points cellIndex xC tetDecomp xT
     = map_sum id (map (translate xT)) (decomposeCell mesh points cellIndex xC tetDecomp 0)
   \<and> fst (getVolumeAndCentre VSMALL (map (translate xT) tets))
     = fst (getVolumeAndCentre VSMALL tets)
   \<and> snd (getVolumeAndCentre VSMALL (map (translate xT) tets))
     = snd (getVolumeAndCentre VSMALL tets)
       - smul (fst (getVolumeAndCentre VSMALL tets)
               / (fst (getVolumeAndCentre VSMALL tets) + VSMALL)) xT"
proof (intro conjI)
  show "decomposeCell mesh points cellIndex xC tetDecomp xT
     = map_sum id (map (translate xT)) (decomposeCell mesh points cellIndex xC tetDecomp 0)"
    by (rule decomposeCell_shift)
  show "fst (getVolumeAndCentre VSMALL (map (translate xT) tets))
     = fst (getVolumeAndCentre VSMALL tets)"
    by (simp only: getVolumeAndCentre_sum fst_conv volume_translate)
  show "snd (getVolumeAndCentre VSMALL (map (translate xT) tets))
     = snd (getVolumeAndCentre VSMALL tets)
       - smul (fst (getVolumeAndCentre VSMALL tets)
               / (fst (getVolumeAndCentre VSMALL tets) + VSMALL)) xT"
    by (simp only: getVolumeAndCentre_sum fst_conv snd_conv volume_translate moment_translate
        vdiv_diff_smul)
qed

theorem decomposeCell_translation_witness:
  "decomposeCell \<lparr>faces = [[0, 1, 2], [0, 3, 1], [0, 2, 3], [1, 3, 2]], cells = [[0, 1, 2, 3]]\<rparr>
     [Vector 0 0 0, Vector 1 0 0, Vector 0 1 0, Vector 0 0 1] 0 (Vector 9 9 9) [] (Vector 1 0 0)
   = map_sum id (map (translate (Vector 1 0 0)))
       (Inr [FixedList4 (Vector 0 0 0) (Vector 1 0 0) (Vector 0 1 0) (Vector 0 0 1)])
   \<and> fst (getVolumeAndCentre (1 / 10 ^ 300)
       [translate (Vector 1 0 0)
          (FixedList4 (Vector 0 0 0) (Vector 1 0 0) (Vector 0 1 0) (Vector 0 0 1))]) = 1 / 6
   \<and> snd (getVolumeAndCentre (1 / 10 ^ 300)
       [translate (Vector 1 0 0)
          (FixedList4 (Vector 0 0 0) (Vector 1 0 0) (Vector 0 1 0) (Vector 0 0 1))])
     = snd (getVolumeAndCentre (1 / 10 ^ 300)
          [FixedList4 (Vector 0 0 0) (Vector 1 0 0) (Vector 0 1 0) (Vector 0 0 1)])
       - smul ((1 / 6) / (1 / 6 + 1 / 10 ^ 300)) (Vector 1 0 0)"
proof -
  define e :: real where "e = 1 / 10 ^ 300"
  have d0: "decomposeCell
      \<lparr>faces = [[0, 1, 2], [0, 3, 1], [0, 2, 3], [1, 3, 2]], cells = [[0, 1, 2, 3]]\<rparr>
      [Vector 0 0 0, Vector 1 0 0, Vector 0 1 0, Vector 0 0 1] 0 (Vector 9 9 9) [] 0
    = Inr [FixedList4 (Vector 0 0 0) (Vector 1 0 0) (Vector 0 1 0) (Vector 0 0 1)]"
    by (simp add: decomposeCell_def Let_def elemAt_def pointAt_def appendTmp_def
        minus_vector_def zero_vector_def)
  have v: "fst (getVolumeAndCentre e
      [FixedList4 (Vector 0 0 0) (Vector 1 0 0) (Vector 0 1 0) (Vector 0 0 1)]) = 1 / 6"
    by (simp add: getVolumeAndCentre_sum tetV_def vec_defs)
  note th = decomposeCell_translation[of
        "\<lparr>faces = [[0, 1, 2], [0, 3, 1], [0, 2, 3], [1, 3, 2]], cells = [[0, 1, 2, 3]]\<rparr>"
        "[Vector 0 0 0, Vector 1 0 0, Vector 0 1 0, Vector 0 0 1]" 0 "Vector 9 9 9" "[]"
        "Vector 1 0 0" e
        "[FixedList4 (Vector 0 0 0) (Vector 1 0 0) (Vector 0 1 0) (Vector 0 0 1)]"]
  have "decomposeCell \<lparr>faces = [[0, 1, 2], [0, 3, 1], [0, 2, 3], [1, 3, 2]], cells = [[0, 1, 2, 3]]\<rparr>
     [Vector 0 0 0, Vector 1 0 0, Vector 0 1 0, Vector 0 0 1] 0 (Vector 9 9 9) [] (Vector 1 0 0)
   = map_sum id (map (translate (Vector 1 0 0)))
       (Inr [FixedList4 (Vector 0 0 0) (Vector 1 0 0) (Vector 0 1 0) (Vector 0 0 1)])
   \<and> fst (getVolumeAndCentre e
       [translate (Vector 1 0 0)
          (FixedList4 (Vector 0 0 0) (Vector 1 0 0) (Vector 0 1 0) (Vector 0 0 1))]) = 1 / 6
   \<and> snd (getVolumeAndCentre e
       [translate (Vector 1 0 0)
          (FixedList4 (Vector 0 0 0) (Vector 1 0 0) (Vector 0 1 0) (Vector 0 0 1))])
     = snd (getVolumeAndCentre e
          [FixedList4 (Vector 0 0 0) (Vector 1 0 0) (Vector 0 1 0) (Vector 0 0 1)])
       - smul ((1 / 6) / (1 / 6 + e)) (Vector 1 0 0)"
    using th by (simp only: d0 v list.map)
  then show ?thesis unfolding e_def .
qed

text \<open>
  The claim as first stated has the centre shifted by \<open>- xT\<close>. For a flat cell, four
  points of the plane \<open>z = 0\<close>, the volume is 0 and \<^verbatim>\<open>getVolumeAndCentre\<close> returns the
  centre 0 for the list with origin 0 and for the list with origin \<open>(1, 0, 0)\<close> alike, so
  the centre is not shifted. Every operation on these coordinates is exact in double
  precision, where the results are the same.
\<close>

theorem centroid_shift_counterexample:
  "decomposeCell \<lparr>faces = [[0, 1, 2], [0, 3, 1], [0, 2, 3], [1, 3, 2]], cells = [[0, 1, 2, 3]]\<rparr>
     [Vector 0 0 0, Vector 1 0 0, Vector 0 1 0, Vector 1 1 0] 0 (Vector 9 9 9) [] 0
   = Inr [FixedList4 (Vector 0 0 0) (Vector 1 0 0) (Vector 0 1 0) (Vector 1 1 0)]
   \<and> decomposeCell
       \<lparr>faces = [[0, 1, 2], [0, 3, 1], [0, 2, 3], [1, 3, 2]], cells = [[0, 1, 2, 3]]\<rparr>
       [Vector 0 0 0, Vector 1 0 0, Vector 0 1 0, Vector 1 1 0] 0 (Vector 9 9 9) [] (Vector 1 0 0)
     = Inr [FixedList4 (Vector (- 1) 0 0) (Vector 0 0 0) (Vector (- 1) 1 0) (Vector 0 1 0)]
   \<and> getVolumeAndCentre (1 / 10 ^ 300)
       [FixedList4 (Vector 0 0 0) (Vector 1 0 0) (Vector 0 1 0) (Vector 1 1 0)]
     = (0, Vector 0 0 0)
   \<and> getVolumeAndCentre (1 / 10 ^ 300)
       [FixedList4 (Vector (- 1) 0 0) (Vector 0 0 0) (Vector (- 1) 1 0) (Vector 0 1 0)]
     = (0, Vector 0 0 0)
   \<and> snd (getVolumeAndCentre (1 / 10 ^ 300)
          [FixedList4 (Vector (- 1) 0 0) (Vector 0 0 0) (Vector (- 1) 1 0) (Vector 0 1 0)])
     \<noteq> snd (getVolumeAndCentre (1 / 10 ^ 300)
          [FixedList4 (Vector 0 0 0) (Vector 1 0 0) (Vector 0 1 0) (Vector 1 1 0)])
       - Vector 1 0 0"
proof -
  define e :: real where "e = 1 / 10 ^ 300"
  have d0: "decomposeCell
      \<lparr>faces = [[0, 1, 2], [0, 3, 1], [0, 2, 3], [1, 3, 2]], cells = [[0, 1, 2, 3]]\<rparr>
      [Vector 0 0 0, Vector 1 0 0, Vector 0 1 0, Vector 1 1 0] 0 (Vector 9 9 9) [] 0
    = Inr [FixedList4 (Vector 0 0 0) (Vector 1 0 0) (Vector 0 1 0) (Vector 1 1 0)]"
    by (simp add: decomposeCell_def Let_def elemAt_def pointAt_def appendTmp_def
        minus_vector_def zero_vector_def)
  have d1: "decomposeCell
      \<lparr>faces = [[0, 1, 2], [0, 3, 1], [0, 2, 3], [1, 3, 2]], cells = [[0, 1, 2, 3]]\<rparr>
      [Vector 0 0 0, Vector 1 0 0, Vector 0 1 0, Vector 1 1 0] 0 (Vector 9 9 9) [] (Vector 1 0 0)
    = Inr [FixedList4 (Vector (- 1) 0 0) (Vector 0 0 0) (Vector (- 1) 1 0) (Vector 0 1 0)]"
    by (simp add: decomposeCell_def Let_def elemAt_def pointAt_def appendTmp_def
        minus_vector_def zero_vector_def)
  have g0: "getVolumeAndCentre e
       [FixedList4 (Vector 0 0 0) (Vector 1 0 0) (Vector 0 1 0) (Vector 1 1 0)]
     = (0, Vector 0 0 0)"
    by (simp add: getVolumeAndCentre_sum tetV_def tetC_def vec_defs)
  have g1: "getVolumeAndCentre e
       [FixedList4 (Vector (- 1) 0 0) (Vector 0 0 0) (Vector (- 1) 1 0) (Vector 0 1 0)]
     = (0, Vector 0 0 0)"
    by (simp add: getVolumeAndCentre_sum tetV_def tetC_def vec_defs)
  have ne: "snd (getVolumeAndCentre e
          [FixedList4 (Vector (- 1) 0 0) (Vector 0 0 0) (Vector (- 1) 1 0) (Vector 0 1 0)])
     \<noteq> snd (getVolumeAndCentre e
          [FixedList4 (Vector 0 0 0) (Vector 1 0 0) (Vector 0 1 0) (Vector 1 1 0)])
       - Vector 1 0 0"
    unfolding g0 g1 by (simp add: minus_vector_def)
  from d0 d1 g0 g1 ne show ?thesis unfolding e_def by (intro conjI)
qed


section \<open>Conservation of volume by the clipper\<close>

text \<open>
  Claim C1. For every tetrahedron and every plane \<open>(n, d)\<close> with \<open>n\<close> not zero, the
  volume of the tetrahedra appended by \<^verbatim>\<open>splitAndDecompose\<close> for \<open>(n, d)\<close> plus the
  volume of those appended for the opposing half-space \<open>(- n, - d)\<close> is the volume of
  the tetrahedron, all three volumes as \<^verbatim>\<open>getVolumeAndCentre\<close> computes them.
\<close>

theorem clipper_conservation:
  assumes "n \<noteq> 0"
  shows "fst (getVolumeAndCentre VSMALL
               (drop (length decompTets) (splitAndDecompose (n, d) tet decompTets)))
       + fst (getVolumeAndCentre VSMALL
               (drop (length decompTets') (splitAndDecompose (- n, - d) tet decompTets')))
       = fst (getVolumeAndCentre VSMALL [tet])"
proof -
  have a: "drop (length decompTets) (splitAndDecompose (n, d) tet decompTets)
      = splitAndDecompose (n, d) tet []"
    by (subst split_append) simp
  have b: "drop (length decompTets') (splitAndDecompose (- n, - d) tet decompTets')
      = splitAndDecompose (- n, - d) tet []"
    by (subst split_append) simp
  show ?thesis
    unfolding a b using conservation[OF assms, of d tet]
    by (simp add: getVolumeAndCentre_sum clipVolume_def)
qed

theorem clipper_conservation_witness:
  "Vector 1 0 0 \<noteq> 0
   \<and> fst (getVolumeAndCentre 0 (splitAndDecompose (Vector 1 0 0, 1 / 2)
        (FixedList4 (Vector 0 0 0) (Vector 1 0 0) (Vector 0 1 0) (Vector 0 0 1)) [])) = 7 / 48
   \<and> fst (getVolumeAndCentre 0 (splitAndDecompose (- Vector 1 0 0, - (1 / 2))
        (FixedList4 (Vector 0 0 0) (Vector 1 0 0) (Vector 0 1 0) (Vector 0 0 1)) [])) = 1 / 48
   \<and> fst (getVolumeAndCentre 0
        [FixedList4 (Vector 0 0 0) (Vector 1 0 0) (Vector 0 1 0) (Vector 0 0 1)]) = 1 / 6"
proof -
  have ne: "Vector 1 0 0 \<noteq> 0" by (simp add: zero_vector_def)
  have cl: "classify (Vector 1 0 0, 1 / 2)
      (FixedList4 (Vector 0 0 0) (Vector 1 0 0) (Vector 0 1 0) (Vector 0 0 1))
    = ([- 1 / 2, 1 / 2, - 1 / 2, - 1 / 2], [1], [0, 2, 3], [])"
    by (simp add: classify_eq upt4 signedDistance_def dot_def)
  have v1: "fst (getVolumeAndCentre 0 (splitAndDecompose (Vector 1 0 0, 1 / 2)
        (FixedList4 (Vector 0 0 0) (Vector 1 0 0) (Vector 0 1 0) (Vector 0 0 1)) [])) = 7 / 48"
    by (simp add: splitAndDecompose_def splitLog_D[OF cl] Let_def edgePoint_def edgeWeights_def
        getVolumeAndCentre_sum tetV_def vec_defs)
  have v0: "fst (getVolumeAndCentre 0
        [FixedList4 (Vector 0 0 0) (Vector 1 0 0) (Vector 0 1 0) (Vector 0 0 1)]) = 1 / 6"
    by (simp add: getVolumeAndCentre_sum tetV_def vec_defs)
  show ?thesis
    using clipper_conservation[OF ne, of 0 "[]" "1 / 2"
        "FixedList4 (Vector 0 0 0) (Vector 1 0 0) (Vector 0 1 0) (Vector 0 0 1)" "[]"] ne v1 v0
    by simp
qed

end
